theory Spec2Isabelle
  imports Main "HOL-Library.AList"
begin

section \<open>Values\<close>

text \<open>
  JavaScript values as far as \<^verbatim>\<open>DataElement.ts\<close> inspects them: it stores and copies a
  value, compares it with \<^verbatim>\<open>null\<close>, tests its truthiness (\<^verbatim>\<open>stateId ? ... : ""\<close>) and
  renders it in a template literal (line 168). The conversion of a number to a string is
  the language's, not this program's, so a number is given by the string the conversion
  yields, which determines it up to the sign of zero: \<open>JNum ''5''\<close>, \<open>JNum ''0.5''\<close>,
  \<open>JNum ''1e+21''\<close>, \<open>JNum ''18446744073709552000''\<close>, \<open>JNum ''NaN''\<close>; a BigInt is given
  the same way. An object is given by its reference and by the string its conversion
  yields: \<^verbatim>\<open>[object Object]\<close> for a plain object, the joined elements for an array.
  The falsy values are \<^verbatim>\<open>undefined\<close>, \<^verbatim>\<open>null\<close>, \<^verbatim>\<open>false\<close>, the empty string, and the
  numbers zero (rendered \<^verbatim>\<open>0\<close>, whatever its sign) and \<^verbatim>\<open>NaN\<close>. Symbols, whose conversion
  in a template literal is a \<^verbatim>\<open>TypeError\<close>, are left out.
\<close>

datatype jsval = JUndefined | JNull | JBool bool | JNum string | JStr string | JObj nat string

fun truthy :: "jsval \<Rightarrow> bool" where
  "truthy JUndefined = False"
| "truthy JNull = False"
| "truthy (JBool b) = b"
| "truthy (JNum r) = (r \<noteq> ''0'' \<and> r \<noteq> ''NaN'')"
| "truthy (JStr s) = (s \<noteq> [])"
| "truthy (JObj ref r) = True"

text \<open>The string a template literal \<^verbatim>\<open>`${v}`\<close> produces.\<close>

fun toString :: "jsval \<Rightarrow> string" where
  "toString JUndefined = ''undefined''"
| "toString JNull = ''null''"
| "toString (JBool b) = (if b then ''true'' else ''false'')"
| "toString (JNum r) = r"
| "toString (JStr s) = s"
| "toString (JObj ref r) = r"

section \<open>Data model\<close>

text \<open>
  \<^verbatim>\<open>interface DataProperty\<close>: four optional fields. \<open>windowEventHandler\<close> holds a function
  reference; a reference is the number the handler got when its closure was created.
\<close>

record dataProperty =
  changeEvent :: "string option"
  statePath :: "string option"
  windowEventName :: "string option"
  windowEventHandler :: "nat option"

text \<open>
  The static fields of an element class (\<^verbatim>\<open>interface DataElementCtor\<close>). \<open>dataProperties\<close>
  is a JavaScript object; the association list keeps its keys in the order
  \<^verbatim>\<open>Object.keys\<close> enumerates them.
\<close>

record ctor =
  elementName :: string
  stateIdProperty :: string
  dataProperties :: "(string \<times> dataProperty) list"

text \<open>
  \<^verbatim>\<open>event.detail\<close> of a \<^verbatim>\<open>CustomEvent\<close>: \<open>None\<close> is a null detail, as in
  \<^verbatim>\<open>new CustomEvent(name)\<close>; otherwise the two fields the listeners read.
\<close>

record detail =
  isSyncUpdate :: bool
  sourceElement :: "nat option"

text \<open>
  The closure registered on the element at lines 198 to 203, with the variables it
  captures, and the closure \<^verbatim>\<open>windowEventHandler\<close> of lines 206 to 211.
\<close>

datatype localListener =
  LocalListener (l_el: nat) (l_statePath: string) (l_propertyName: string) (l_windowEventName: string)

datatype windowHandler =
  WindowHandler (h_el: nat) (h_propertyName: string) (h_statePath: string) (h_changeEvent: string)

text \<open>
  A value of \<^verbatim>\<open>stateRefs\<close>: a count, or the \<^verbatim>\<open>NaN\<close> that \<^verbatim>\<open>undefined - 1\<close> gives.
\<close>

datatype refcount = Count int | NaN

text \<open>What the program does that an observer can see, in order.\<close>

datatype action =
    RootStateSet string jsval
  | RootStateDelete string
  | PropSet nat string jsval
  | LocalEvent nat string "detail option"
  | WindowEvent string "detail option"

text \<open>
  The whole mutable world: the module-level \<^verbatim>\<open>stateRefs\<close>, the store behind
  \<^verbatim>\<open>RootState\<close>, the static fields of every element class, and for every element its
  class, its properties and its listeners; the listeners of \<^verbatim>\<open>window\<close> with the event
  name and the reference of each; the next fresh function reference; the actions so far.
\<close>

record state =
  stateRefs :: "string \<rightharpoonup> refcount"
  rootState :: "string \<rightharpoonup> jsval"
  ctors :: "nat \<Rightarrow> ctor"
  elCtor :: "nat \<Rightarrow> nat"
  elProps :: "nat \<Rightarrow> string \<Rightarrow> jsval"
  elListeners :: "nat \<Rightarrow> (string \<times> localListener) list"
  windowListeners :: "(string \<times> nat \<times> windowHandler) list"
  nextHandler :: nat
  trace :: "action list"

definition log :: "action \<Rightarrow> state \<Rightarrow> state" where
  "log a s = s\<lparr>trace := trace s @ [a]\<rparr>"

section \<open>RootState\<close>

text \<open>
  Modelled from the spec: the module \<^verbatim>\<open>./RootState\<close> that \<^verbatim>\<open>DataElement.ts\<close> imports is
  not among the sources. Section 4.1 of the specification: a key-value store from state
  path to value; \<open>get\<close> returns the stored value, or the null sentinel if absent, with no
  side effect; \<open>set\<close> overwrites or creates the entry unconditionally; \<open>delete\<close> removes
  the entry and is a no-op if absent.
\<close>

definition RootState_get :: "state \<Rightarrow> string \<Rightarrow> jsval" where
  "RootState_get s path = (case rootState s path of None \<Rightarrow> JNull | Some v \<Rightarrow> v)"

definition RootState_set :: "string \<Rightarrow> jsval \<Rightarrow> state \<Rightarrow> state" where
  "RootState_set path v s = log (RootStateSet path v) (s\<lparr>rootState := (rootState s)(path \<mapsto> v)\<rparr>)"

definition RootState_delete :: "string \<Rightarrow> state \<Rightarrow> state" where
  "RootState_delete path s = log (RootStateDelete path) (s\<lparr>rootState := (rootState s)(path := None)\<rparr>)"

section \<open>Helpers and event dispatch\<close>

definition getProp :: "state \<Rightarrow> nat \<Rightarrow> string \<Rightarrow> jsval" where
  "getProp s el name = elProps s el name"

definition setProp :: "nat \<Rightarrow> string \<Rightarrow> jsval \<Rightarrow> state \<Rightarrow> state" where
  "setProp el name v s =
     log (PropSet el name v) (s\<lparr>elProps := (elProps s)(el := (elProps s el)(name := v))\<rparr>)"

text \<open>\<^verbatim>\<open>event.detail?.isSyncUpdate === true\<close> and \<^verbatim>\<open>event.detail?.sourceElement\<close>.\<close>

definition isSync :: "detail option \<Rightarrow> bool" where
  "isSync ev = (case ev of None \<Rightarrow> False | Some d \<Rightarrow> isSyncUpdate d)"

definition sourceOf :: "detail option \<Rightarrow> nat option" where
  "sourceOf ev = (case ev of None \<Rightarrow> None | Some d \<Rightarrow> sourceElement d)"

text \<open>The listeners an event of a given name reaches, in the order they were added.\<close>

definition listenersFor :: "state \<Rightarrow> nat \<Rightarrow> string \<Rightarrow> localListener list" where
  "listenersFor s el name = map snd (filter (\<lambda>e. fst e = name) (elListeners s el))"

definition handlersFor :: "state \<Rightarrow> string \<Rightarrow> windowHandler list" where
  "handlersFor s name = map (\<lambda>e. snd (snd e)) (filter (\<lambda>e. fst e = name) (windowListeners s))"

definition syncDetail :: "detail option" where
  "syncDetail = Some \<lparr>isSyncUpdate = True, sourceElement = None\<rparr>"

definition globalDetail :: "nat \<Rightarrow> detail option" where
  "globalDetail el = Some \<lparr>isSyncUpdate = False, sourceElement = Some el\<rparr>"

text \<open>
  Dispatch is synchronous and re-entrant. \<open>invokeLocal\<close> calls the local listeners of one
  dispatch in turn, each with the body of lines 199 to 202: unless the event is tagged as
  a sync update, write the property to RootState and \<^verbatim>\<open>triggerGlobalEvent\<close>, which
  dispatches on \<^verbatim>\<open>window\<close>. \<open>invokeWindow\<close> calls the window handlers of one dispatch in
  turn, each with the body of lines 207 to 210: unless the event's source is the handler's
  own element, set the property from RootState and \<^verbatim>\<open>triggerSyncEvent\<close>, which dispatches
  on the element again.
\<close>

function invokeLocal :: "localListener list \<Rightarrow> detail option \<Rightarrow> state \<Rightarrow> state"
  and invokeWindow :: "windowHandler list \<Rightarrow> detail option \<Rightarrow> state \<Rightarrow> state"
where
  "invokeLocal [] ev s = s"
| "invokeLocal (l # ls) ev s =
     invokeLocal ls ev
       (if \<not> isSync ev then
          (let s1 = RootState_set (l_statePath l) (getProp s (l_el l) (l_propertyName l)) s;
               s2 = log (WindowEvent (l_windowEventName l) (globalDetail (l_el l))) s1
           in invokeWindow (handlersFor s2 (l_windowEventName l)) (globalDetail (l_el l)) s2)
        else s)"
| "invokeWindow [] ev s = s"
| "invokeWindow (h # hs) ev s =
     invokeWindow hs ev
       (if sourceOf ev \<noteq> Some (h_el h) then
          (let s1 = setProp (h_el h) (h_propertyName h) (RootState_get s (h_statePath h)) s;
               s2 = log (LocalEvent (h_el h) (h_changeEvent h) syncDetail) s1
           in invokeLocal (listenersFor s2 (h_el h) (h_changeEvent h)) syncDetail s2)
        else s)"
  by pat_completeness auto
termination
  apply (relation "inv_image (less_than <*lex*> less_than)
          (\<lambda>x. case x of
                 Inl (ls, ev, s) \<Rightarrow> (if isSync ev then 0 else 2, length ls)
               | Inr (hs, ev, s) \<Rightarrow> (Suc 0, length hs))")
  apply (auto simp: syncDetail_def isSync_def)
  done

text \<open>
  \<^verbatim>\<open>el.dispatchEvent\<close> and \<^verbatim>\<open>window.dispatchEvent\<close>: the listeners registered under the
  event's name run one after the other before the call returns. A \<^verbatim>\<open>CustomEvent\<close> does
  not bubble, so an event dispatched on an element reaches that element's listeners only.
\<close>

definition dispatchEvent :: "nat \<Rightarrow> string \<Rightarrow> detail option \<Rightarrow> state \<Rightarrow> state" where
  "dispatchEvent el name ev s =
     (let s1 = log (LocalEvent el name ev) s in invokeLocal (listenersFor s1 el name) ev s1)"

definition windowDispatchEvent :: "string \<Rightarrow> detail option \<Rightarrow> state \<Rightarrow> state" where
  "windowDispatchEvent name ev s =
     (let s1 = log (WindowEvent name ev) s in invokeWindow (handlersFor s1 name) ev s1)"

definition triggerSyncEvent :: "nat \<Rightarrow> string \<Rightarrow> state \<Rightarrow> state" where
  "triggerSyncEvent el ce s = dispatchEvent el ce syncDetail s"

definition triggerGlobalEvent :: "nat \<Rightarrow> string \<Rightarrow> state \<Rightarrow> state" where
  "triggerGlobalEvent el ce s = windowDispatchEvent ce (globalDetail el) s"

definition addEventListener :: "nat \<Rightarrow> string \<Rightarrow> localListener \<Rightarrow> state \<Rightarrow> state" where
  "addEventListener el name l s =
     s\<lparr>elListeners := (elListeners s)(el := elListeners s el @ [(name, l)])\<rparr>"

text \<open>
  Every evaluation of the arrow function at line 206 is a new function object, so
  \<^verbatim>\<open>window.addEventListener\<close> never meets a duplicate: the handler gets the next fresh
  reference. \<^verbatim>\<open>removeEventListener\<close> takes the listener with that name and that
  reference off the list; with \<^verbatim>\<open>undefined\<close> for the callback it does nothing, and an
  \<^verbatim>\<open>undefined\<close> name is the string of that name.
\<close>

definition windowAddEventListener :: "string \<Rightarrow> nat \<Rightarrow> windowHandler \<Rightarrow> state \<Rightarrow> state" where
  "windowAddEventListener name h f s = s\<lparr>windowListeners := windowListeners s @ [(name, h, f)]\<rparr>"

definition asString :: "string option \<Rightarrow> string" where
  "asString x = (case x of None \<Rightarrow> ''undefined'' | Some v \<Rightarrow> v)"

definition windowRemoveEventListener :: "string option \<Rightarrow> nat option \<Rightarrow> state \<Rightarrow> state" where
  "windowRemoveEventListener name h s =
     (case h of
        None \<Rightarrow> s
      | Some r \<Rightarrow> s\<lparr>windowListeners :=
                    filter (\<lambda>e. \<not> (fst e = asString name \<and> fst (snd e) = r)) (windowListeners s)\<rparr>)"

section \<open>The per-type record\<close>

definition lookupDp :: "state \<Rightarrow> nat \<Rightarrow> string \<Rightarrow> dataProperty option" where
  "lookupDp s c p = map_of (dataProperties (ctors s c)) p"

text \<open>\<^verbatim>\<open>ctor.dataProperties[p] = dp\<close>: a new object under the key, which keeps its place.\<close>

definition storeDp :: "nat \<Rightarrow> string \<Rightarrow> dataProperty \<Rightarrow> state \<Rightarrow> state" where
  "storeDp c p dp s =
     s\<lparr>ctors := (ctors s)(c := (ctors s c)\<lparr>dataProperties :=
          AList.update p dp (dataProperties (ctors s c))\<rparr>)\<rparr>"

text \<open>A write to, or a \<^verbatim>\<open>delete\<close> of, fields of the object stored under the key.\<close>

definition modifyDp :: "nat \<Rightarrow> string \<Rightarrow> (dataProperty \<Rightarrow> dataProperty) \<Rightarrow> state \<Rightarrow> state" where
  "modifyDp c p f s =
     s\<lparr>ctors := (ctors s)(c := (ctors s c)\<lparr>dataProperties :=
          AList.map_entry p f (dataProperties (ctors s c))\<rparr>)\<rparr>"

section \<open>Reference counts\<close>

text \<open>
  Line 185, \<^verbatim>\<open>stateRefs[statePath] ? stateRefs[statePath] + 1 : 1\<close>: an absent count, zero
  and \<^verbatim>\<open>NaN\<close> are falsy. Line 247, \<^verbatim>\<open>stateRefs[statePath] - 1\<close>: \<^verbatim>\<open>undefined - 1\<close> is
  \<^verbatim>\<open>NaN\<close>.
\<close>

fun incRef :: "refcount option \<Rightarrow> refcount" where
  "incRef (Some (Count n)) = (if n \<noteq> 0 then Count (n + 1) else Count 1)"
| "incRef (Some NaN) = Count 1"
| "incRef None = Count 1"

fun decRef :: "refcount option \<Rightarrow> refcount" where
  "decRef (Some (Count n)) = Count (n - 1)"
| "decRef (Some NaN) = NaN"
| "decRef None = NaN"

section \<open>Attach\<close>

text \<open>
  Modelled from the spec: the package \<^verbatim>\<open>@domx/middleware\<close> is not among the sources.
  Section 2 of the specification: the pipeline runs interceptor functions that are given
  a readonly metadata snapshot, so a run of either pipeline leaves the state as it is.
\<close>

definition mapThenExecute :: "state \<Rightarrow> state" where
  "mapThenExecute s = s"

definition defaultChangeEvent :: "string \<Rightarrow> string option \<Rightarrow> string" where
  "defaultChangeEvent propertyName e =
     (case e of None \<Rightarrow> propertyName @ ''-changed''
      | Some v \<Rightarrow> if v = [] then propertyName @ ''-changed'' else v)"

text \<open>
  The body of the \<^verbatim>\<open>forEach\<close> at lines 170 to 214, for one property name. The name comes
  from \<^verbatim>\<open>Object.keys\<close> of the same object, and no step removes a key, so the lookup at
  line 173 finds an entry; the \<open>None\<close> branch, a \<^verbatim>\<open>TypeError\<close> in JavaScript, is never
  taken by \<open>elementConnected\<close>.
\<close>

definition connectProperty :: "nat \<Rightarrow> string \<Rightarrow> string \<Rightarrow> state \<Rightarrow> state" where
  "connectProperty el stateIdPath propertyName s =
     (let c = elCtor s el in
      case lookupDp s c propertyName of
        None \<Rightarrow> s
      | Some dp \<Rightarrow>
          let sp = elementName (ctors s c) @ ''.'' @ propertyName @ stateIdPath;
              ce = defaultChangeEvent propertyName (changeEvent dp);
              wn = sp @ ''-changed'';
              s1 = storeDp c propertyName
                     (dp\<lparr>changeEvent := Some ce, statePath := Some sp, windowEventName := Some wn\<rparr>) s;
              s2 = s1\<lparr>stateRefs := (stateRefs s1)(sp \<mapsto> incRef (stateRefs s1 sp))\<rparr>;
              initialState = RootState_get s2 sp;
              s3 = (if initialState = JNull
                    then RootState_set sp (getProp s2 el propertyName) s2
                    else triggerSyncEvent el ce (setProp el propertyName initialState s2));
              s4 = addEventListener el ce (LocalListener el sp propertyName wn) s3;
              h = nextHandler s4;
              s5 = modifyDp c propertyName (\<lambda>d. d\<lparr>windowEventHandler := Some h\<rparr>) s4;
              s6 = s5\<lparr>nextHandler := Suc h\<rparr>
          in windowAddEventListener wn h (WindowHandler el propertyName sp ce) s6)"

definition stateIdPathOf :: "state \<Rightarrow> nat \<Rightarrow> string" where
  "stateIdPathOf s el =
     (let stateId = getProp s el (stateIdProperty (ctors s (elCtor s el)))
      in if truthy stateId then ''.'' @ toString stateId else [])"

definition propertyNames :: "state \<Rightarrow> nat \<Rightarrow> string list" where
  "propertyNames s el = map fst (dataProperties (ctors s (elCtor s el)))"

definition elementConnected :: "nat \<Rightarrow> state \<Rightarrow> state" where
  "elementConnected el s =
     mapThenExecute (fold (connectProperty el (stateIdPathOf s el)) (propertyNames s el) s)"

section \<open>Detach\<close>

text \<open>The body of the \<^verbatim>\<open>forEach\<close> at lines 244 to 253.\<close>

definition disconnectProperty :: "nat \<Rightarrow> string \<Rightarrow> state \<Rightarrow> state" where
  "disconnectProperty el propertyName s =
     (let c = elCtor s el in
      case lookupDp s c propertyName of
        None \<Rightarrow> s
      | Some dp \<Rightarrow>
          let sp = asString (statePath dp);
              s1 = s\<lparr>stateRefs := (stateRefs s)(sp \<mapsto> decRef (stateRefs s sp))\<rparr>;
              s2 = (if stateRefs s1 sp = Some (Count 0) then RootState_delete sp s1 else s1);
              s3 = windowRemoveEventListener (windowEventName dp) (windowEventHandler dp) s2
          in modifyDp c propertyName
               (\<lambda>d. d\<lparr>windowEventName := None, windowEventHandler := None\<rparr>) s3)"

definition elementDisconnected :: "nat \<Rightarrow> state \<Rightarrow> state" where
  "elementDisconnected el s =
     mapThenExecute (fold (disconnectProperty el) (propertyNames s el) s)"

definition refreshState :: "nat \<Rightarrow> state \<Rightarrow> state" where
  "refreshState el s = elementConnected el (elementDisconnected el s)"

section \<open>Auxiliary definitions for stating and proving properties\<close>

text \<open>
  The steps of a dispatch, unfolded: what one global handler does with an event from a
  given source, and what one local listener does with a genuine change event.
\<close>

definition syncUpdate :: "windowHandler \<Rightarrow> state \<Rightarrow> state" where
  "syncUpdate h s =
     triggerSyncEvent (h_el h) (h_changeEvent h)
       (setProp (h_el h) (h_propertyName h) (RootState_get s (h_statePath h)) s)"

definition handleGlobal :: "nat option \<Rightarrow> windowHandler \<Rightarrow> state \<Rightarrow> state" where
  "handleGlobal src h s = (if src \<noteq> Some (h_el h) then syncUpdate h s else s)"

definition pushChange :: "localListener \<Rightarrow> state \<Rightarrow> state" where
  "pushChange l s =
     triggerGlobalEvent (l_el l) (l_windowEventName l)
       (RootState_set (l_statePath l) (getProp s (l_el l) (l_propertyName l)) s)"

text \<open>
  What an attach of element \<open>el\<close> resolves for the property \<open>p\<close> in the state \<open>s\<close>, given
  the stateId suffix: the state path, the change event name, the actions of the pass, and
  the two closures it registers.
\<close>

definition pathOf :: "state \<Rightarrow> nat \<Rightarrow> string \<Rightarrow> string \<Rightarrow> string" where
  "pathOf s el sfx p = elementName (ctors s (elCtor s el)) @ ''.'' @ p @ sfx"

definition changeEventOf :: "state \<Rightarrow> nat \<Rightarrow> string \<Rightarrow> string" where
  "changeEventOf s el p =
     defaultChangeEvent p (case lookupDp s (elCtor s el) p of None \<Rightarrow> None | Some dp \<Rightarrow> changeEvent dp)"

definition declared :: "state \<Rightarrow> nat \<Rightarrow> string \<Rightarrow> bool" where
  "declared s el p = (p \<in> set (propertyNames s el))"

abbreviation attachLoop :: "nat \<Rightarrow> string \<Rightarrow> string list \<Rightarrow> state \<Rightarrow> state" where
  "attachLoop el sfx ks s \<equiv> fold (connectProperty el sfx) ks s"

definition attachActions :: "state \<Rightarrow> nat \<Rightarrow> string \<Rightarrow> string \<Rightarrow> action list" where
  "attachActions s el sfx p =
     (let sp = pathOf s el sfx p; v = RootState_get s sp
      in if v = JNull then [RootStateSet sp (getProp s el p)]
         else [PropSet el p v, LocalEvent el (changeEventOf s el p) syncDetail])"

definition attachListener :: "state \<Rightarrow> nat \<Rightarrow> string \<Rightarrow> string \<Rightarrow> string \<times> localListener" where
  "attachListener s el sfx p =
     (changeEventOf s el p, LocalListener el (pathOf s el sfx p) p (pathOf s el sfx p @ ''-changed''))"

definition attachHandler :: "state \<Rightarrow> nat \<Rightarrow> string \<Rightarrow> string \<Rightarrow> windowHandler" where
  "attachHandler s el sfx p = WindowHandler el p (pathOf s el sfx p) (changeEventOf s el p)"

text \<open>
  What a detach reads from the per-type record: the entry of a property and its
  \<^verbatim>\<open>statePath\<close> as a key of \<^verbatim>\<open>stateRefs\<close>; which listeners of \<^verbatim>\<open>window\<close> the call of
  \<^verbatim>\<open>removeEventListener\<close> takes off; what the two \<^verbatim>\<open>delete\<close>s leave of the entry; the
  actions of the pass.
\<close>

definition storedDp :: "state \<Rightarrow> nat \<Rightarrow> string \<Rightarrow> dataProperty" where
  "storedDp s el p =
     (case lookupDp s (elCtor s el) p of
        None \<Rightarrow> \<lparr>changeEvent = None, statePath = None, windowEventName = None, windowEventHandler = None\<rparr>
      | Some dp \<Rightarrow> dp)"

definition storedPath :: "state \<Rightarrow> nat \<Rightarrow> string \<Rightarrow> string" where
  "storedPath s el p = asString (statePath (storedDp s el p))"

definition removes :: "dataProperty \<Rightarrow> string \<times> nat \<times> windowHandler \<Rightarrow> bool" where
  "removes dp e =
     (case windowEventHandler dp of None \<Rightarrow> False
      | Some r \<Rightarrow> fst e = asString (windowEventName dp) \<and> fst (snd e) = r)"

definition clearResolved :: "dataProperty \<Rightarrow> dataProperty" where
  "clearResolved d = d\<lparr>windowEventName := None, windowEventHandler := None\<rparr>"

definition detachActions :: "state \<Rightarrow> nat \<Rightarrow> string \<Rightarrow> action list" where
  "detachActions s el p =
     (if decRef (stateRefs s (storedPath s el p)) = Count 0
      then [RootStateDelete (storedPath s el p)] else [])"

abbreviation detachLoop :: "nat \<Rightarrow> string list \<Rightarrow> state \<Rightarrow> state" where
  "detachLoop el ks s \<equiv> fold (disconnectProperty el) ks s"

text \<open>
  A page for the examples: the element class \<^verbatim>\<open>my-widget\<close> with the one data property
  \<^verbatim>\<open>count\<close>; elements 2 and 3 without a stateId (element 2 with count 5), element 4 with
  stateId \<^verbatim>\<open>a\<close>, elements 5 and 6 with stateId \<^verbatim>\<open>b\<close> (element 5 with count 7); nothing
  attached yet.
\<close>

definition Widget :: ctor where
  "Widget = \<lparr>elementName = ''my-widget'', stateIdProperty = ''stateId'',
     dataProperties = [(''count'', \<lparr>changeEvent = Some ''count-changed'', statePath = None,
        windowEventName = None, windowEventHandler = None\<rparr>)]\<rparr>"

definition page :: state where
  "page = \<lparr>stateRefs = Map.empty, rootState = Map.empty, ctors = (\<lambda>c. Widget), elCtor = (\<lambda>e. 0),
     elProps = (\<lambda>e n. if n = ''count'' then JNum (if e = 2 then ''5'' else if e = 5 then ''7'' else ''0'')
                     else if n = ''stateId'' \<and> e = 4 then JStr ''a''
                     else if n = ''stateId'' \<and> (e = 5 \<or> e = 6) then JStr ''b'' else JUndefined),
     elListeners = (\<lambda>e. []), windowListeners = [], nextHandler = 0, trace = []\<rparr>"

text \<open>Kinds of actions, for counting them in a trace.\<close>

fun isWindowEvent :: "action \<Rightarrow> bool" where
  "isWindowEvent (WindowEvent n d) = True"
| "isWindowEvent a = False"

fun isRootStateSet :: "action \<Rightarrow> bool" where
  "isRootStateSet (RootStateSet k v) = True"
| "isRootStateSet a = False"

fun onElement :: "nat \<Rightarrow> action \<Rightarrow> bool" where
  "onElement e (PropSet e' q v) = (e' = e)"
| "onElement e (LocalEvent e' n d) = (e' = e)"
| "onElement e a = False"

text \<open>The actions of one global handler: a sync update of its element, or nothing.\<close>

definition syncActions :: "nat option \<Rightarrow> state \<Rightarrow> windowHandler \<Rightarrow> action list" where
  "syncActions src s h =
     (if src \<noteq> Some (h_el h)
      then [PropSet (h_el h) (h_propertyName h) (RootState_get s (h_statePath h)),
            LocalEvent (h_el h) (h_changeEvent h) syncDetail]
      else [])"

text \<open>
  The lifecycle callbacks the host calls: \<^verbatim>\<open>connectedCallback\<close> is \<^verbatim>\<open>elementConnected\<close>,
  \<^verbatim>\<open>disconnectedCallback\<close> is \<^verbatim>\<open>elementDisconnected\<close>.
\<close>

datatype lifecycle = Attach nat | Detach nat

fun run :: "lifecycle list \<Rightarrow> state \<Rightarrow> state" where
  "run [] s = s"
| "run (Attach e # ops) s = run ops (elementConnected e s)"
| "run (Detach e # ops) s = run ops (elementDisconnected e s)"

fun subject :: "lifecycle \<Rightarrow> nat" where
  "subject (Attach e) = e"
| "subject (Detach e) = e"

text \<open>
  The elements attached after a sequence of callbacks, and the sequences in which the
  callbacks of each element are paired: an element is attached only while detached and
  detached only while attached.
\<close>

fun attachedAfter :: "nat set \<Rightarrow> lifecycle list \<Rightarrow> nat set" where
  "attachedAfter att [] = att"
| "attachedAfter att (Attach e # ops) = attachedAfter (insert e att) ops"
| "attachedAfter att (Detach e # ops) = attachedAfter (att - {e}) ops"

fun paired :: "nat set \<Rightarrow> lifecycle list \<Rightarrow> bool" where
  "paired att [] = True"
| "paired att (Attach e # ops) = (e \<notin> att \<and> paired (insert e att) ops)"
| "paired att (Detach e # ops) = (e \<in> att \<and> paired (att - {e}) ops)"

text \<open>
  The invariant behind the reference count of a path that the elements of \<open>E\<close> share:
  \<open>A\<close> is one of them, \<open>att\<close> the set of those attached, \<open>started\<close> tells whether any
  callback has run since the state \<open>s\<close>.
\<close>

definition sharedInv :: "state \<Rightarrow> nat set \<Rightarrow> nat \<Rightarrow> string \<Rightarrow> bool \<Rightarrow> nat set \<Rightarrow> state \<Rightarrow> bool" where
  "sharedInv s E A p started att t \<longleftrightarrow>
     elCtor t = elCtor s \<and>
     (\<forall>c. elementName (ctors t c) = elementName (ctors s c) \<and>
          stateIdProperty (ctors t c) = stateIdProperty (ctors s c) \<and>
          map fst (dataProperties (ctors t c)) = map fst (dataProperties (ctors s c))) \<and>
     (\<forall>e\<in>E. stateIdPathOf t e = stateIdPathOf s A) \<and>
     (att \<noteq> {} \<longrightarrow>
        (\<forall>q\<in>set (propertyNames s A). storedPath t A q = pathOf s A (stateIdPathOf s A) q)) \<and>
     (started \<longrightarrow>
        stateRefs t (pathOf s A (stateIdPathOf s A) p) = Some (Count (int (card att))) \<and>
        (att = {} \<longrightarrow> rootState t (pathOf s A (stateIdPathOf s A) p) = None)) \<and>
     (\<not> started \<longrightarrow> att = {} \<and> stateRefs t (pathOf s A (stateIdPathOf s A) p) = None)"

text \<open>
  What happens on a page: the host calls a lifecycle callback of an element, an event is
  dispatched on an element, or a property of an element is assigned.
\<close>

datatype happening =
    Connected nat
  | Disconnected nat
  | Dispatched nat string "detail option"
  | Assigned nat string jsval

fun exec :: "happening list \<Rightarrow> state \<Rightarrow> state" where
  "exec [] s = s"
| "exec (Connected e # hs) s = exec hs (elementConnected e s)"
| "exec (Disconnected e # hs) s = exec hs (elementDisconnected e s)"
| "exec (Dispatched e name ev # hs) s = exec hs (dispatchEvent e name ev s)"
| "exec (Assigned e p v # hs) s = exec hs (setProp e p v s)"

text \<open>
  A second page, with property names that contain the separator: the element class
  \<^verbatim>\<open>my-form\<close> with the data properties \<^verbatim>\<open>user\<close> and \<^verbatim>\<open>user.name\<close>; element 2 with stateId
  \<^verbatim>\<open>name.x\<close> and \<^verbatim>\<open>user\<close> set to \<^verbatim>\<open>ann\<close>, element 3 with stateId \<^verbatim>\<open>x\<close>. And a history of the
  first page in which the elements 4 and 5 attach, change, and element 5 detaches and
  attaches again.
\<close>

definition Form :: ctor where
  "Form = \<lparr>elementName = ''my-form'', stateIdProperty = ''stateId'',
     dataProperties =
       [(''user'', \<lparr>changeEvent = None, statePath = None, windowEventName = None, windowEventHandler = None\<rparr>),
        (''user.name'', \<lparr>changeEvent = None, statePath = None, windowEventName = None,
           windowEventHandler = None\<rparr>)]\<rparr>"

definition formPage :: state where
  "formPage = \<lparr>stateRefs = Map.empty, rootState = Map.empty, ctors = (\<lambda>c. Form), elCtor = (\<lambda>e. 0),
     elProps = (\<lambda>e n. if n = ''stateId'' \<and> e = 2 then JStr ''name.x''
                     else if n = ''stateId'' \<and> e = 3 then JStr ''x''
                     else if n = ''user'' \<and> e = 2 then JStr ''ann'' else JUndefined),
     elListeners = (\<lambda>e. []), windowListeners = [], nextHandler = 0, trace = []\<rparr>"


text \<open>
  A third page, on which the stateId is itself a data property: the element class
  \<^verbatim>\<open>my-tab\<close> with the data properties \<^verbatim>\<open>count\<close> and \<^verbatim>\<open>stateId\<close>; element 2 with stateId \<^verbatim>\<open>c\<close>
  and count 5, element 3 with stateId \<^verbatim>\<open>b\<close>; RootState already holds \<^verbatim>\<open>a\<close> under the path
  of the stateId \<^verbatim>\<open>c\<close> and \<^verbatim>\<open>c\<close> under the path of the stateId \<^verbatim>\<open>b\<close>. In the history each of
  the two elements attaches, is detached and attaches again.
\<close>

definition Tab :: ctor where
  "Tab = \<lparr>elementName = ''my-tab'', stateIdProperty = ''stateId'',
     dataProperties =
       [(''count'', \<lparr>changeEvent = None, statePath = None, windowEventName = None, windowEventHandler = None\<rparr>),
        (''stateId'', \<lparr>changeEvent = None, statePath = None, windowEventName = None,
           windowEventHandler = None\<rparr>)]\<rparr>"

definition tabPage :: state where
  "tabPage = \<lparr>stateRefs = Map.empty,
     rootState = [''my-tab.stateId.c'' \<mapsto> JStr ''a'', ''my-tab.stateId.b'' \<mapsto> JStr ''c''],
     ctors = (\<lambda>c. Tab), elCtor = (\<lambda>e. 0),
     elProps = (\<lambda>e n. if n = ''stateId'' \<and> e = 2 then JStr ''c''
                     else if n = ''stateId'' \<and> e = 3 then JStr ''b''
                     else if n = ''count'' \<and> e = 2 then JNum ''5'' else JUndefined),
     elListeners = (\<lambda>e. []), windowListeners = [], nextHandler = 0, trace = []\<rparr>"

definition tabHistory :: "happening list" where
  "tabHistory = [Connected 2, Disconnected 2, Connected 2, Connected 3, Disconnected 3, Connected 3]"



section \<open>Basic facts\<close>

lemmas prim_defs = log_def RootState_set_def RootState_delete_def RootState_get_def getProp_def setProp_def
  addEventListener_def windowAddEventListener_def windowRemoveEventListener_def storeDp_def modifyDp_def
  lookupDp_def mapThenExecute_def

subsection \<open>Event dispatch\<close>

lemma isSync_syncDetail: "isSync syncDetail"
  by (simp add: isSync_def syncDetail_def)

lemma isSync_globalDetail: "\<not> isSync (globalDetail el)"
  by (simp add: isSync_def globalDetail_def)

lemma sourceOf_globalDetail: "sourceOf (globalDetail el) = Some el"
  by (simp add: sourceOf_def globalDetail_def)

lemma invokeLocal_sync: "isSync ev \<Longrightarrow> invokeLocal ls ev s = s"
  by (induction ls) simp_all

lemma triggerSyncEvent_eq: "triggerSyncEvent el ce s = log (LocalEvent el ce syncDetail) s"
  by (simp add: triggerSyncEvent_def dispatchEvent_def invokeLocal_sync isSync_syncDetail)

lemma invokeWindow_fold: "invokeWindow hs ev s = fold (handleGlobal (sourceOf ev)) hs s"
  by (induction hs arbitrary: s)
     (simp_all add: handleGlobal_def syncUpdate_def triggerSyncEvent_eq invokeLocal_sync isSync_syncDetail)

lemma invokeLocal_fold: "\<not> isSync ev \<Longrightarrow> invokeLocal ls ev s = fold pushChange ls s"
  by (induction ls arbitrary: s)
     (simp_all add: pushChange_def triggerGlobalEvent_def windowDispatchEvent_def Let_def)

lemma map_entry_update: "AList.map_entry p f (AList.update p v al) = AList.update p (f v) al"
  by (induction al) auto

subsection \<open>One pass of the attach loop\<close>

lemma declared_lookup: "declared s el p \<Longrightarrow> \<exists>dp. lookupDp s (elCtor s el) p = Some dp"
  by (simp add: declared_def propertyNames_def lookupDp_def) (metis map_of_eq_None_iff not_Some_eq set_map)

lemma lookup_declared: "lookupDp s (elCtor s el) p = Some dp \<Longrightarrow> declared s el p"
  by (simp add: declared_def propertyNames_def lookupDp_def) (metis map_of_SomeD fst_conv image_eqI)

lemma connectProperty_declared:
  assumes "declared s el p"
  shows "connectProperty el sfx p s =
     (let c = elCtor s el;
          sp = pathOf s el sfx p;
          ce = changeEventOf s el p;
          wn = sp @ ''-changed'';
          v = RootState_get s sp
      in s\<lparr>stateRefs := (stateRefs s)(sp \<mapsto> incRef (stateRefs s sp)),
           rootState := (if v = JNull then (rootState s)(sp \<mapsto> getProp s el p) else rootState s),
           ctors := (ctors s)(c := (ctors s c)\<lparr>dataProperties :=
              AList.update p \<lparr>changeEvent = Some ce, statePath = Some sp, windowEventName = Some wn,
                 windowEventHandler = Some (nextHandler s)\<rparr> (dataProperties (ctors s c))\<rparr>),
           elProps := (if v = JNull then elProps s else (elProps s)(el := (elProps s el)(p := v))),
           elListeners := (elListeners s)(el := elListeners s el @ [(ce, LocalListener el sp p wn)]),
           windowListeners := windowListeners s @ [(wn, nextHandler s, WindowHandler el p sp ce)],
           nextHandler := Suc (nextHandler s),
           trace := trace s @ (if v = JNull then [RootStateSet sp (getProp s el p)]
                               else [PropSet el p v, LocalEvent el ce syncDetail])\<rparr>)"
proof -
  from assms obtain dp where dp: "lookupDp s (elCtor s el) p = Some dp"
    using declared_lookup by blast
  show ?thesis
    using dp
    by (cases dp)
       (simp add: connectProperty_def Let_def triggerSyncEvent_eq prim_defs map_entry_update
          pathOf_def changeEventOf_def)
qed

lemma connectProperty_undeclared: "\<not> declared s el p \<Longrightarrow> connectProperty el sfx p s = s"
  using lookup_declared by (fastforce simp: connectProperty_def Let_def split: option.splits)

lemma update_keys_present: "k \<in> fst ` set al \<Longrightarrow> map fst (AList.update k v al) = map fst al"
  by (simp add: update_keys)

lemma connectProperty_elCtor [simp]: "elCtor (connectProperty el sfx p s) = elCtor s"
  by (cases "declared s el p") (simp_all add: connectProperty_declared connectProperty_undeclared Let_def)

lemma connectProperty_elementName [simp]:
  "elementName (ctors (connectProperty el sfx p s) c) = elementName (ctors s c)"
  by (cases "declared s el p") (simp_all add: connectProperty_declared connectProperty_undeclared Let_def)

lemma connectProperty_stateIdProperty [simp]:
  "stateIdProperty (ctors (connectProperty el sfx p s) c) = stateIdProperty (ctors s c)"
  by (cases "declared s el p") (simp_all add: connectProperty_declared connectProperty_undeclared Let_def)

lemma connectProperty_keys [simp]:
  "map fst (dataProperties (ctors (connectProperty el sfx p s) c)) = map fst (dataProperties (ctors s c))"
proof (cases "declared s el p")
  case True
  then have "p \<in> fst ` set (dataProperties (ctors s (elCtor s el)))"
    by (simp add: declared_def propertyNames_def)
  then show ?thesis
    using True by (simp add: connectProperty_declared Let_def update_keys_present)
next
  case False
  then show ?thesis by (simp add: connectProperty_undeclared)
qed

lemma connectProperty_propertyNames [simp]:
  "propertyNames (connectProperty el sfx p s) e = propertyNames s e"
  by (simp add: propertyNames_def)

lemma connectProperty_declared_iff [simp]:
  "declared (connectProperty el sfx p s) e q = declared s e q"
  by (simp add: declared_def)

lemma connectProperty_pathOf [simp]:
  "pathOf (connectProperty el sfx p s) e x q = pathOf s e x q"
  by (simp add: pathOf_def)

lemma defaultChangeEvent_idem [simp]:
  "defaultChangeEvent p (Some (defaultChangeEvent p x)) = defaultChangeEvent p x"
  by (auto simp: defaultChangeEvent_def split: option.splits)

lemma connectProperty_lookupDp:
  "lookupDp (connectProperty el sfx p s) c q =
     (if c = elCtor s el \<and> q = p \<and> declared s el p
      then Some \<lparr>changeEvent = Some (changeEventOf s el p), statePath = Some (pathOf s el sfx p),
              windowEventName = Some (pathOf s el sfx p @ ''-changed''),
              windowEventHandler = Some (nextHandler s)\<rparr>
      else lookupDp s c q)"
proof (cases "declared s el p")
  case True
  then show ?thesis
    by (simp add: connectProperty_declared Let_def lookupDp_def update_conv')
next
  case False
  then show ?thesis by (simp add: connectProperty_undeclared)
qed

lemma connectProperty_changeEventOf [simp]:
  "changeEventOf (connectProperty el sfx p s) e q = changeEventOf s e q"
  by (simp add: changeEventOf_def connectProperty_lookupDp)

lemma pathOf_inj [simp]: "pathOf s el sfx p = pathOf s el sfx q \<longleftrightarrow> p = q"
  by (simp add: pathOf_def)

lemma pathOf_image [simp]: "pathOf s el sfx p \<in> pathOf s el sfx ` A \<longleftrightarrow> p \<in> A"
  by auto

subsection \<open>The attach loop\<close>

lemma attachLoop_frame [simp]:
  "elCtor (attachLoop el sfx ks s) = elCtor s"
  "elementName (ctors (attachLoop el sfx ks s) c) = elementName (ctors s c)"
  "stateIdProperty (ctors (attachLoop el sfx ks s) c) = stateIdProperty (ctors s c)"
  "propertyNames (attachLoop el sfx ks s) e = propertyNames s e"
  "declared (attachLoop el sfx ks s) e q = declared s e q"
  "pathOf (attachLoop el sfx ks s) e x q = pathOf s e x q"
  "changeEventOf (attachLoop el sfx ks s) e q = changeEventOf s e q"
  by (induction ks arbitrary: s) simp_all

lemma connectProperty_other:
  "x \<noteq> pathOf s el sfx p \<Longrightarrow> stateRefs (connectProperty el sfx p s) x = stateRefs s x"
  "x \<noteq> pathOf s el sfx p \<Longrightarrow> rootState (connectProperty el sfx p s) x = rootState s x"
  "e \<noteq> el \<or> q \<noteq> p \<Longrightarrow> elProps (connectProperty el sfx p s) e q = elProps s e q"
  "e \<noteq> el \<Longrightarrow> elListeners (connectProperty el sfx p s) e = elListeners s e"
  by (cases "declared s el p"; auto simp: connectProperty_declared connectProperty_undeclared Let_def)+

lemma attachLoop_other:
  "x \<notin> pathOf s el sfx ` set ks \<Longrightarrow> stateRefs (attachLoop el sfx ks s) x = stateRefs s x"
  "x \<notin> pathOf s el sfx ` set ks \<Longrightarrow> rootState (attachLoop el sfx ks s) x = rootState s x"
  "e \<noteq> el \<or> q \<notin> set ks \<Longrightarrow> elProps (attachLoop el sfx ks s) e q = elProps s e q"
  "e \<noteq> el \<Longrightarrow> elListeners (attachLoop el sfx ks s) e = elListeners s e"
  by (induction ks arbitrary: s; auto simp: connectProperty_other)+

lemma attachLoop_get_other:
  "p \<notin> set ks \<Longrightarrow> RootState_get (attachLoop el sfx ks s) (pathOf s el sfx p) = RootState_get s (pathOf s el sfx p)"
  "p \<notin> set ks \<Longrightarrow> getProp (attachLoop el sfx ks s) el p = getProp s el p"
  by (simp_all add: RootState_get_def getProp_def attachLoop_other)

lemma attachLoop_snoc:
  assumes "declared s el p" and "p \<notin> set ks"
  shows "attachLoop el sfx (ks @ [p]) s =
     (let S = attachLoop el sfx ks s;
          sp = pathOf s el sfx p;
          ce = changeEventOf s el p;
          wn = sp @ ''-changed'';
          v = RootState_get s sp
      in S\<lparr>stateRefs := (stateRefs S)(sp \<mapsto> incRef (stateRefs s sp)),
           rootState := (if v = JNull then (rootState S)(sp \<mapsto> getProp s el p) else rootState S),
           ctors := (ctors S)(elCtor s el := (ctors S (elCtor s el))\<lparr>dataProperties :=
              AList.update p \<lparr>changeEvent = Some ce, statePath = Some sp, windowEventName = Some wn,
                 windowEventHandler = Some (nextHandler S)\<rparr> (dataProperties (ctors S (elCtor s el)))\<rparr>),
           elProps := (if v = JNull then elProps S else (elProps S)(el := (elProps S el)(p := v))),
           elListeners := (elListeners S)(el := elListeners S el @ [(ce, LocalListener el sp p wn)]),
           windowListeners := windowListeners S @ [(wn, nextHandler S, WindowHandler el p sp ce)],
           nextHandler := Suc (nextHandler S),
           trace := trace S @ (if v = JNull then [RootStateSet sp (getProp s el p)]
                               else [PropSet el p v, LocalEvent el ce syncDetail])\<rparr>)"
  using assms
  by (simp add: connectProperty_declared Let_def attachLoop_get_other attachLoop_other)

lemma attachLoop_stateRefs:
  assumes "distinct ks" and "\<forall>p\<in>set ks. declared s el p"
  shows "stateRefs (attachLoop el sfx ks s) x =
           (if x \<in> pathOf s el sfx ` set ks then Some (incRef (stateRefs s x)) else stateRefs s x)"
  using assms by (induction ks rule: rev_induct) (auto simp: attachLoop_snoc Let_def simp del: fold_append)

lemma attachLoop_rootState:
  assumes "distinct ks" and "\<forall>p\<in>set ks. declared s el p"
  shows "rootState (attachLoop el sfx ks s) (pathOf s el sfx p) =
           (if p \<in> set ks \<and> RootState_get s (pathOf s el sfx p) = JNull
            then Some (getProp s el p) else rootState s (pathOf s el sfx p))"
  using assms by (induction ks rule: rev_induct) (auto simp: attachLoop_snoc Let_def simp del: fold_append)

lemma attachLoop_elProps:
  assumes "distinct ks" and "\<forall>p\<in>set ks. declared s el p"
  shows "elProps (attachLoop el sfx ks s) e q =
           (if e = el \<and> q \<in> set ks \<and> RootState_get s (pathOf s el sfx q) \<noteq> JNull
            then RootState_get s (pathOf s el sfx q) else elProps s e q)"
  using assms by (induction ks rule: rev_induct) (auto simp: attachLoop_snoc Let_def simp del: fold_append)

lemma attachLoop_elListeners:
  assumes "distinct ks" and "\<forall>p\<in>set ks. declared s el p"
  shows "elListeners (attachLoop el sfx ks s) =
           (elListeners s)(el := elListeners s el @ map (attachListener s el sfx) ks)"
  using assms
  by (induction ks rule: rev_induct)
     (auto simp: attachLoop_snoc Let_def attachListener_def simp del: fold_append)

lemma attachLoop_windowListeners:
  assumes "distinct ks" and "\<forall>p\<in>set ks. declared s el p"
  shows "map fst (windowListeners (attachLoop el sfx ks s)) =
           map fst (windowListeners s) @ map (\<lambda>p. pathOf s el sfx p @ ''-changed'') ks"
    and "map (\<lambda>e. snd (snd e)) (windowListeners (attachLoop el sfx ks s)) =
           map (\<lambda>e. snd (snd e)) (windowListeners s) @ map (attachHandler s el sfx) ks"
  using assms
  by (induction ks rule: rev_induct;
      auto simp: attachLoop_snoc Let_def attachHandler_def simp del: fold_append)+

lemma attachLoop_nextHandler:
  assumes "distinct ks" and "\<forall>p\<in>set ks. declared s el p"
  shows "nextHandler (attachLoop el sfx ks s) = nextHandler s + length ks"
  using assms by (induction ks rule: rev_induct) (auto simp: attachLoop_snoc Let_def simp del: fold_append)

lemma attachLoop_trace:
  assumes "distinct ks" and "\<forall>p\<in>set ks. declared s el p"
  shows "trace (attachLoop el sfx ks s) = trace s @ concat (map (attachActions s el sfx) ks)"
  using assms
  by (induction ks rule: rev_induct)
     (auto simp: attachLoop_snoc Let_def attachActions_def simp del: fold_append)

lemma attachLoop_lookupDp_other:
  "c \<noteq> elCtor s el \<or> q \<notin> set ks \<Longrightarrow> lookupDp (attachLoop el sfx ks s) c q = lookupDp s c q"
  by (induction ks arbitrary: s) (auto simp: connectProperty_lookupDp)

lemma attachLoop_lookupDp:
  assumes "q \<in> set ks" and "declared s el q"
  shows "\<exists>h. lookupDp (attachLoop el sfx ks s) (elCtor s el) q =
           Some \<lparr>changeEvent = Some (changeEventOf s el q), statePath = Some (pathOf s el sfx q),
              windowEventName = Some (pathOf s el sfx q @ ''-changed''),
              windowEventHandler = Some h\<rparr>"
  using assms
proof (induction ks rule: rev_induct)
  case Nil
  then show ?case by simp
next
  case (snoc p ks)
  show ?case
  proof (cases "q = p")
    case True
    then show ?thesis
      using snoc.prems by (simp add: connectProperty_lookupDp)
  next
    case False
    then show ?thesis
      using snoc by (simp add: connectProperty_lookupDp)
  qed
qed

subsection \<open>The detach loop\<close>

lemma disconnectProperty_declared:
  assumes "declared s el p"
  shows "disconnectProperty el p s =
     (let c = elCtor s el; dp = storedDp s el p; sp = storedPath s el p
      in s\<lparr>stateRefs := (stateRefs s)(sp \<mapsto> decRef (stateRefs s sp)),
           rootState := (if decRef (stateRefs s sp) = Count 0 then (rootState s)(sp := None)
                         else rootState s),
           ctors := (ctors s)(c := (ctors s c)\<lparr>dataProperties :=
              AList.map_entry p clearResolved (dataProperties (ctors s c))\<rparr>),
           windowListeners := filter (\<lambda>e. \<not> removes dp e) (windowListeners s),
           trace := trace s @ detachActions s el p\<rparr>)"
proof -
  from assms obtain dp where dp: "lookupDp s (elCtor s el) p = Some dp"
    using declared_lookup by blast
  have cr: "(\<lambda>d. d\<lparr>windowEventName := None, windowEventHandler := None\<rparr>) = clearResolved"
    by (simp add: fun_eq_iff clearResolved_def)
  show ?thesis
  proof (cases "windowEventHandler dp")
    case None
    then show ?thesis
      using dp
      by (simp add: disconnectProperty_def Let_def prim_defs storedDp_def storedPath_def
            detachActions_def removes_def cr)
  next
    case (Some r)
    then show ?thesis
      using dp
      by (simp add: disconnectProperty_def Let_def prim_defs storedDp_def storedPath_def
            detachActions_def removes_def cr)
  qed
qed

lemma disconnectProperty_undeclared: "\<not> declared s el p \<Longrightarrow> disconnectProperty el p s = s"
  using lookup_declared by (fastforce simp: disconnectProperty_def Let_def split: option.splits)

lemma map_entry_keys [simp]: "map fst (AList.map_entry k f al) = map fst al"
  by (induction al) auto

lemma disconnectProperty_frame [simp]:
  "elCtor (disconnectProperty el p s) = elCtor s"
  "elementName (ctors (disconnectProperty el p s) c) = elementName (ctors s c)"
  "stateIdProperty (ctors (disconnectProperty el p s) c) = stateIdProperty (ctors s c)"
  "map fst (dataProperties (ctors (disconnectProperty el p s) c)) = map fst (dataProperties (ctors s c))"
  "elProps (disconnectProperty el p s) = elProps s"
  "elListeners (disconnectProperty el p s) = elListeners s"
  "nextHandler (disconnectProperty el p s) = nextHandler s"
  by (cases "declared s el p";
      simp add: disconnectProperty_declared disconnectProperty_undeclared Let_def)+

lemma disconnectProperty_names [simp]:
  "propertyNames (disconnectProperty el p s) e = propertyNames s e"
  "declared (disconnectProperty el p s) e q = declared s e q"
  "pathOf (disconnectProperty el p s) e x q = pathOf s e x q"
  by (simp_all add: propertyNames_def declared_def pathOf_def)

lemma disconnectProperty_lookupDp:
  "lookupDp (disconnectProperty el p s) c q =
     (if c = elCtor s el \<and> q = p then map_option clearResolved (lookupDp s c q) else lookupDp s c q)"
proof (cases "declared s el p")
  case True
  then show ?thesis
    by (auto simp: disconnectProperty_declared Let_def lookupDp_def map_of_map_entry split: option.splits)
next
  case False
  then have "lookupDp s (elCtor s el) p = None"
    using lookup_declared by (cases "lookupDp s (elCtor s el) p") auto
  with False show ?thesis by (auto simp: disconnectProperty_undeclared)
qed

lemma clearResolved_fields [simp]:
  "changeEvent (clearResolved d) = changeEvent d"
  "statePath (clearResolved d) = statePath d"
  "windowEventName (clearResolved d) = None"
  "windowEventHandler (clearResolved d) = None"
  by (simp_all add: clearResolved_def)

lemma disconnectProperty_changeEventOf [simp]:
  "changeEventOf (disconnectProperty el p s) e q = changeEventOf s e q"
  by (auto simp: changeEventOf_def disconnectProperty_lookupDp split: option.splits)

lemma disconnectProperty_storedPath [simp]:
  "storedPath (disconnectProperty el p s) e q = storedPath s e q"
  by (auto simp: storedPath_def storedDp_def disconnectProperty_lookupDp split: option.splits)

lemma disconnectProperty_storedDp_other:
  "q \<noteq> p \<Longrightarrow> storedDp (disconnectProperty el p s) e q = storedDp s e q"
  by (auto simp: storedDp_def disconnectProperty_lookupDp split: option.splits)

lemma detachLoop_frame [simp]:
  "elCtor (detachLoop el ks s) = elCtor s"
  "elementName (ctors (detachLoop el ks s) c) = elementName (ctors s c)"
  "stateIdProperty (ctors (detachLoop el ks s) c) = stateIdProperty (ctors s c)"
  "propertyNames (detachLoop el ks s) e = propertyNames s e"
  "declared (detachLoop el ks s) e q = declared s e q"
  "pathOf (detachLoop el ks s) e x q = pathOf s e x q"
  "changeEventOf (detachLoop el ks s) e q = changeEventOf s e q"
  "storedPath (detachLoop el ks s) e q = storedPath s e q"
  "elProps (detachLoop el ks s) = elProps s"
  "elListeners (detachLoop el ks s) = elListeners s"
  "nextHandler (detachLoop el ks s) = nextHandler s"
  by (induction ks arbitrary: s) simp_all

lemma detachLoop_lookupDp:
  "lookupDp (detachLoop el ks s) c q =
     (if c = elCtor s el \<and> q \<in> set ks then map_option clearResolved (lookupDp s c q)
      else lookupDp s c q)"
proof (induction ks arbitrary: s)
  case Nil
  show ?case by simp
next
  case (Cons p ks)
  have cc: "clearResolved \<circ> clearResolved = clearResolved"
    by (simp add: fun_eq_iff clearResolved_def)
  show ?case
    by (auto simp: Cons disconnectProperty_lookupDp option.map_comp cc)
qed

lemma detachLoop_storedDp_other:
  "q \<notin> set ks \<Longrightarrow> storedDp (detachLoop el ks s) e q = storedDp s e q"
  by (induction ks arbitrary: s) (auto simp: disconnectProperty_storedDp_other)

lemma disconnectProperty_other:
  "x \<noteq> storedPath s el p \<Longrightarrow> stateRefs (disconnectProperty el p s) x = stateRefs s x"
  "x \<noteq> storedPath s el p \<Longrightarrow> rootState (disconnectProperty el p s) x = rootState s x"
  by (cases "declared s el p"; auto simp: disconnectProperty_declared disconnectProperty_undeclared Let_def)+

lemma detachLoop_other:
  "x \<notin> storedPath s el ` set ks \<Longrightarrow> stateRefs (detachLoop el ks s) x = stateRefs s x"
  "x \<notin> storedPath s el ` set ks \<Longrightarrow> rootState (detachLoop el ks s) x = rootState s x"
  by (induction ks arbitrary: s; auto simp: disconnectProperty_other)+

lemma detachLoop_snoc:
  assumes "declared s el p" and "p \<notin> set ks" and "storedPath s el p \<notin> storedPath s el ` set ks"
  shows "detachLoop el (ks @ [p]) s =
     (let S = detachLoop el ks s; c = elCtor s el; dp = storedDp s el p; sp = storedPath s el p
      in S\<lparr>stateRefs := (stateRefs S)(sp \<mapsto> decRef (stateRefs s sp)),
           rootState := (if decRef (stateRefs s sp) = Count 0 then (rootState S)(sp := None)
                         else rootState S),
           ctors := (ctors S)(c := (ctors S c)\<lparr>dataProperties :=
              AList.map_entry p clearResolved (dataProperties (ctors S c))\<rparr>),
           windowListeners := filter (\<lambda>e. \<not> removes dp e) (windowListeners S),
           trace := trace S @ detachActions s el p\<rparr>)"
  using assms
  by (simp add: disconnectProperty_declared Let_def detachLoop_other detachLoop_storedDp_other
        detachActions_def)

lemma detachLoop_stateRefs:
  assumes "distinct ks" and "\<forall>p\<in>set ks. declared s el p" and "inj_on (storedPath s el) (set ks)"
  shows "stateRefs (detachLoop el ks s) x =
           (if x \<in> storedPath s el ` set ks then Some (decRef (stateRefs s x)) else stateRefs s x)"
  using assms
proof (induction ks rule: rev_induct)
  case Nil
  show ?case by simp
next
  case (snoc p ks)
  then have "storedPath s el p \<notin> storedPath s el ` set ks"
    by (auto simp: inj_on_def)
  with snoc show ?case
    by (auto simp: detachLoop_snoc Let_def inj_on_def simp del: fold_append)
qed

lemma detachLoop_rootState:
  assumes "distinct ks" and "\<forall>p\<in>set ks. declared s el p" and "inj_on (storedPath s el) (set ks)"
  shows "rootState (detachLoop el ks s) x =
           (if x \<in> storedPath s el ` set ks \<and> decRef (stateRefs s x) = Count 0 then None
            else rootState s x)"
  using assms
proof (induction ks rule: rev_induct)
  case Nil
  show ?case by simp
next
  case (snoc p ks)
  then have "storedPath s el p \<notin> storedPath s el ` set ks"
    by (auto simp: inj_on_def)
  with snoc show ?case
    by (auto simp: detachLoop_snoc Let_def inj_on_def simp del: fold_append)
qed

lemma detachLoop_trace:
  assumes "distinct ks" and "\<forall>p\<in>set ks. declared s el p" and "inj_on (storedPath s el) (set ks)"
  shows "trace (detachLoop el ks s) = trace s @ concat (map (detachActions s el) ks)"
  using assms
proof (induction ks rule: rev_induct)
  case Nil
  show ?case by simp
next
  case (snoc p ks)
  then have "storedPath s el p \<notin> storedPath s el ` set ks"
    by (auto simp: inj_on_def)
  with snoc show ?case
    by (auto simp: detachLoop_snoc Let_def inj_on_def simp del: fold_append)
qed

lemma detachLoop_windowListeners:
  assumes "distinct ks" and "\<forall>p\<in>set ks. declared s el p" and "inj_on (storedPath s el) (set ks)"
  shows "windowListeners (detachLoop el ks s) =
           filter (\<lambda>e. \<forall>p\<in>set ks. \<not> removes (storedDp s el p) e) (windowListeners s)"
  using assms
proof (induction ks rule: rev_induct)
  case Nil
  show ?case by simp
next
  case (snoc p ks)
  then have "storedPath s el p \<notin> storedPath s el ` set ks"
    by (auto simp: inj_on_def)
  with snoc show ?case
    by (auto simp: detachLoop_snoc Let_def inj_on_def simp del: fold_append intro!: filter_cong)
qed

subsection \<open>Attach and detach as loops\<close>

lemma elementConnected_loop:
  "elementConnected el s = attachLoop el (stateIdPathOf s el) (propertyNames s el) s"
  by (simp add: elementConnected_def mapThenExecute_def)

lemma elementDisconnected_loop:
  "elementDisconnected el s = detachLoop el (propertyNames s el) s"
  by (simp add: elementDisconnected_def mapThenExecute_def)

lemma declared_all: "\<forall>p\<in>set (propertyNames s el). declared s el p"
  by (simp add: declared_def)

subsection \<open>The example page\<close>

lemma page_simps:
  "propertyNames page e = [''count'']"
  "declared page e ''count''"
  "stateIdPathOf page 2 = []" "stateIdPathOf page 3 = []"
  "stateIdPathOf page 4 = ''.a''" "stateIdPathOf page 5 = ''.b''"
  "pathOf page e x ''count'' = ''my-widget.count'' @ x"
  "changeEventOf page e ''count'' = ''count-changed''"
  by (simp_all add: page_def Widget_def propertyNames_def declared_def stateIdPathOf_def getProp_def
        pathOf_def changeEventOf_def lookupDp_def defaultChangeEvent_def)

subsection \<open>Global handlers and local listeners\<close>

lemma handleGlobal_frame [simp]:
  "stateRefs (handleGlobal src h s) = stateRefs s"
  "rootState (handleGlobal src h s) = rootState s"
  "ctors (handleGlobal src h s) = ctors s"
  "elCtor (handleGlobal src h s) = elCtor s"
  "elListeners (handleGlobal src h s) = elListeners s"
  "windowListeners (handleGlobal src h s) = windowListeners s"
  "nextHandler (handleGlobal src h s) = nextHandler s"
  "RootState_get (handleGlobal src h s) k = RootState_get s k"
  by (simp_all add: handleGlobal_def syncUpdate_def triggerSyncEvent_eq prim_defs)

lemma handleGlobal_trace: "trace (handleGlobal src h s) = trace s @ syncActions src s h"
  by (simp add: handleGlobal_def syncUpdate_def triggerSyncEvent_eq prim_defs syncActions_def)

lemma handleGlobal_elProps:
  "elProps (handleGlobal src h s) =
     (if src \<noteq> Some (h_el h)
      then (elProps s)(h_el h := (elProps s (h_el h))(h_propertyName h := RootState_get s (h_statePath h)))
      else elProps s)"
  by (simp add: handleGlobal_def syncUpdate_def triggerSyncEvent_eq prim_defs)

lemma syncActions_cong:
  "rootState s = rootState t \<Longrightarrow> syncActions src s = syncActions src t"
  by (rule ext) (simp add: syncActions_def RootState_get_def)

lemma globalLoop_frame [simp]:
  "stateRefs (fold (handleGlobal src) hs s) = stateRefs s"
  "rootState (fold (handleGlobal src) hs s) = rootState s"
  "ctors (fold (handleGlobal src) hs s) = ctors s"
  "elCtor (fold (handleGlobal src) hs s) = elCtor s"
  "elListeners (fold (handleGlobal src) hs s) = elListeners s"
  "windowListeners (fold (handleGlobal src) hs s) = windowListeners s"
  "nextHandler (fold (handleGlobal src) hs s) = nextHandler s"
  by (induction hs arbitrary: s) simp_all

lemma globalLoop_trace:
  "trace (fold (handleGlobal src) hs s) = trace s @ concat (map (syncActions src s) hs)"
proof (induction hs arbitrary: s)
  case Nil
  show ?case by simp
next
  case (Cons h hs)
  have "syncActions src (handleGlobal src h s) = syncActions src s"
    by (rule syncActions_cong) simp
  then show ?case
    by (simp add: Cons handleGlobal_trace)
qed

lemma globalLoop_elProps_other:
  "e \<notin> h_el ` set hs \<or> src = Some e \<Longrightarrow> elProps (fold (handleGlobal src) hs s) e = elProps s e"
  by (induction hs arbitrary: s) (auto simp: handleGlobal_elProps)

lemma syncActions_not_global:
  "a \<in> set (syncActions src s h) \<Longrightarrow> \<not> isWindowEvent a \<and> \<not> isRootStateSet a"
  by (auto simp: syncActions_def split: if_splits)

lemma pushChange_eq:
  "pushChange l s =
     fold (handleGlobal (Some (l_el l))) (handlersFor s (l_windowEventName l))
       (log (WindowEvent (l_windowEventName l) (globalDetail (l_el l)))
          (RootState_set (l_statePath l) (getProp s (l_el l) (l_propertyName l)) s))"
  by (simp add: pushChange_def triggerGlobalEvent_def windowDispatchEvent_def Let_def
        invokeWindow_fold sourceOf_globalDetail handlersFor_def prim_defs)

lemma pushChange_frame [simp]:
  "stateRefs (pushChange l s) = stateRefs s"
  "ctors (pushChange l s) = ctors s"
  "elCtor (pushChange l s) = elCtor s"
  "elListeners (pushChange l s) = elListeners s"
  "windowListeners (pushChange l s) = windowListeners s"
  "nextHandler (pushChange l s) = nextHandler s"
  by (simp_all add: pushChange_eq prim_defs)

lemma pushChange_rootState:
  "rootState (pushChange l s) = (rootState s)(l_statePath l \<mapsto> getProp s (l_el l) (l_propertyName l))"
  by (simp add: pushChange_eq prim_defs)

lemma pushChange_trace:
  "trace (pushChange l s) =
     trace s @ [RootStateSet (l_statePath l) (getProp s (l_el l) (l_propertyName l)),
                WindowEvent (l_windowEventName l) (globalDetail (l_el l))]
       @ concat (map (syncActions (Some (l_el l)) (pushChange l s)) (handlersFor s (l_windowEventName l)))"
proof -
  let ?t = "log (WindowEvent (l_windowEventName l) (globalDetail (l_el l)))
          (RootState_set (l_statePath l) (getProp s (l_el l) (l_propertyName l)) s)"
  have "syncActions (Some (l_el l)) (pushChange l s) = syncActions (Some (l_el l)) ?t"
    by (rule syncActions_cong) (simp add: pushChange_rootState prim_defs)
  then show ?thesis
    by (simp add: pushChange_eq [of l s] globalLoop_trace) (simp add: prim_defs)
qed


subsection \<open>An entry that holds null\<close>

lemma forget_names [simp]:
  "declared (s\<lparr>rootState := r\<rparr>) el q = declared s el q"
  "pathOf (s\<lparr>rootState := r\<rparr>) el sfx q = pathOf s el sfx q"
  "changeEventOf (s\<lparr>rootState := r\<rparr>) el q = changeEventOf s el q"
  "stateIdPathOf (s\<lparr>rootState := r\<rparr>) el = stateIdPathOf s el"
  "propertyNames (s\<lparr>rootState := r\<rparr>) el = propertyNames s el"
  "getProp (s\<lparr>rootState := r\<rparr>) el q = getProp s el q"
  by (simp_all add: declared_def pathOf_def changeEventOf_def stateIdPathOf_def propertyNames_def
        getProp_def lookupDp_def)

lemma connectProperty_forget_other:
  assumes "declared s el q" and "k \<noteq> pathOf s el sfx q"
  shows "connectProperty el sfx q (s\<lparr>rootState := (rootState s)(k := None)\<rparr>) =
         (connectProperty el sfx q s)\<lparr>rootState := (rootState (connectProperty el sfx q s))(k := None)\<rparr>"
  using assms
  by (auto simp: connectProperty_declared Let_def RootState_get_def fun_upd_twist)

lemma connectProperty_forget_null:
  assumes "declared s el p" and "rootState s (pathOf s el sfx p) = Some JNull"
  shows "connectProperty el sfx p (s\<lparr>rootState := (rootState s)(pathOf s el sfx p := None)\<rparr>) =
         connectProperty el sfx p s"
  using assms
  by (simp add: connectProperty_declared Let_def RootState_get_def)

lemma attachLoop_forget_null:
  assumes "p \<in> set ks" and "\<forall>q\<in>set ks. declared s el q"
    and "rootState s (pathOf s el sfx p) = Some JNull"
  shows "attachLoop el sfx ks (s\<lparr>rootState := (rootState s)(pathOf s el sfx p := None)\<rparr>) =
         attachLoop el sfx ks s"
  using assms
proof (induction ks arbitrary: s)
  case Nil
  then show ?case by simp
next
  case (Cons q ks)
  show ?case
  proof (cases "q = p")
    case True
    have "connectProperty el sfx p (s\<lparr>rootState := (rootState s)(pathOf s el sfx p := None)\<rparr>) =
          connectProperty el sfx p s"
      by (rule connectProperty_forget_null) (use Cons.prems True in auto)
    then show ?thesis
      by (simp only: True fold.simps o_apply)
  next
    case False
    let ?s1 = "connectProperty el sfx q s"
    have "attachLoop el sfx ks (?s1\<lparr>rootState := (rootState ?s1)(pathOf ?s1 el sfx p := None)\<rparr>) =
          attachLoop el sfx ks ?s1"
      using False Cons.prems by (intro Cons.IH) (auto simp: connectProperty_other)
    moreover have "connectProperty el sfx q (s\<lparr>rootState := (rootState s)(pathOf s el sfx p := None)\<rparr>) =
         ?s1\<lparr>rootState := (rootState ?s1)(pathOf s el sfx p := None)\<rparr>"
      by (rule connectProperty_forget_other) (use Cons.prems False in auto)
    moreover have "pathOf ?s1 el sfx p = pathOf s el sfx p"
      by simp
    ultimately show ?thesis
      by (simp only: fold.simps o_apply)
  qed
qed

subsection \<open>A genuine event on an element\<close>

lemma pushLoop_frame [simp]:
  "stateRefs (fold pushChange ls s) = stateRefs s"
  "ctors (fold pushChange ls s) = ctors s"
  "elCtor (fold pushChange ls s) = elCtor s"
  "elListeners (fold pushChange ls s) = elListeners s"
  "windowListeners (fold pushChange ls s) = windowListeners s"
  "nextHandler (fold pushChange ls s) = nextHandler s"
  by (induction ls arbitrary: s) simp_all





lemma dispatchEvent_genuine:
  "\<not> isSync ev \<Longrightarrow>
     dispatchEvent el name ev s = fold pushChange (listenersFor s el name) (log (LocalEvent el name ev) s)"
  by (simp add: dispatchEvent_def Let_def invokeLocal_fold listenersFor_def log_def)

lemma attach_storedPath:
  assumes "declared s el p"
  shows "storedPath (elementConnected el s) el p = pathOf s el (stateIdPathOf s el) p"
proof -
  have p: "p \<in> set (propertyNames s el)"
    using assms by (simp add: declared_def)
  show ?thesis
    using attachLoop_lookupDp [OF p assms, of "stateIdPathOf s el"]
    by (auto simp: elementConnected_loop storedPath_def storedDp_def asString_def)
qed


lemma elementConnected_frame [simp]:
  "elCtor (elementConnected el s) = elCtor s"
  "propertyNames (elementConnected el s) e = propertyNames s e"
  "declared (elementConnected el s) e q = declared s e q"
  "pathOf (elementConnected el s) e x q = pathOf s e x q"
  "changeEventOf (elementConnected el s) e q = changeEventOf s e q"
  "elementName (ctors (elementConnected el s) c) = elementName (ctors s c)"
  "stateIdProperty (ctors (elementConnected el s) c) = stateIdProperty (ctors s c)"
  by (simp_all add: elementConnected_loop)

lemma elementDisconnected_frame [simp]:
  "elCtor (elementDisconnected el s) = elCtor s"
  "propertyNames (elementDisconnected el s) e = propertyNames s e"
  "declared (elementDisconnected el s) e q = declared s e q"
  "pathOf (elementDisconnected el s) e x q = pathOf s e x q"
  "changeEventOf (elementDisconnected el s) e q = changeEventOf s e q"
  "storedPath (elementDisconnected el s) e q = storedPath s e q"
  "elProps (elementDisconnected el s) = elProps s"
  "elListeners (elementDisconnected el s) = elListeners s"
  "nextHandler (elementDisconnected el s) = nextHandler s"
  "elementName (ctors (elementDisconnected el s) c) = elementName (ctors s c)"
  "stateIdProperty (ctors (elementDisconnected el s) c) = stateIdProperty (ctors s c)"
  by (simp_all add: elementDisconnected_loop)

lemma listenersFor_append:
  "elListeners s el = xs @ ys \<Longrightarrow>
     listenersFor s el name = map snd (filter (\<lambda>e. fst e = name) xs) @ map snd (filter (\<lambda>e. fst e = name) ys)"
  by (simp add: listenersFor_def)

subsection \<open>The invariant of a shared path\<close>

lemma attachLoop_keys [simp]:
  "map fst (dataProperties (ctors (attachLoop el sfx ks s) c)) = map fst (dataProperties (ctors s c))"
  by (induction ks arbitrary: s) simp_all

lemma detachLoop_keys [simp]:
  "map fst (dataProperties (ctors (detachLoop el ks s) c)) = map fst (dataProperties (ctors s c))"
  by (induction ks arbitrary: s) simp_all

lemma storedPath_same_ctor: "elCtor t e = elCtor t e' \<Longrightarrow> storedPath t e q = storedPath t e' q"
  by (simp add: storedPath_def storedDp_def)

lemma sharedInv_names:
  assumes "sharedInv s E A p b att t" and "e \<in> E" and "\<forall>e\<in>E. elCtor s e = elCtor s A"
  shows "propertyNames t e = propertyNames s A"
    and "stateIdPathOf t e = stateIdPathOf s A"
    and "pathOf t e x q = pathOf s A x q"
    and "declared t e q = declared s A q"
    and "elCtor t e = elCtor s A"
proof -
  have cs: "elCtor s e = elCtor s A"
    using assms(2,3) by blast
  have ct: "elCtor t = elCtor s"
    using assms(1) by (simp add: sharedInv_def)
  have k: "map fst (dataProperties (ctors t c)) = map fst (dataProperties (ctors s c))"
    "elementName (ctors t c) = elementName (ctors s c)" for c
    using assms(1) by (simp_all add: sharedInv_def)
  show "elCtor t e = elCtor s A"
    by (simp add: ct cs)
  show "propertyNames t e = propertyNames s A"
    by (simp add: propertyNames_def ct cs k)
  show "stateIdPathOf t e = stateIdPathOf s A"
    using assms(1,2) by (simp add: sharedInv_def)
  show "pathOf t e x q = pathOf s A x q"
    by (simp add: pathOf_def ct cs k)
  show "declared t e q = declared s A q"
    by (simp add: declared_def propertyNames_def ct cs k)
qed

lemma stateIdPathOf_cong:
  assumes "elCtor t = elCtor s" and "stateIdProperty (ctors t (elCtor s e)) = stateIdProperty (ctors s (elCtor s e))"
    and "elProps t e (stateIdProperty (ctors s (elCtor s e))) = elProps s e (stateIdProperty (ctors s (elCtor s e)))"
  shows "stateIdPathOf t e = stateIdPathOf s e"
  using assms by (simp add: stateIdPathOf_def getProp_def)

lemma sharedInv_attach:
  assumes inv: "sharedInv s E A p b att t" and e: "e \<in> E" "e \<notin> att" and att: "att \<subseteq> E" and fin: "finite E"
    and A: "A \<in> E"
    and ctor: "\<forall>e\<in>E. elCtor s e = elCtor s A"
    and dist: "distinct (propertyNames s A)" and p: "declared s A p"
    and sid: "stateIdProperty (ctors s (elCtor s A)) \<notin> set (propertyNames s A)"
  shows "sharedInv s E A p True (insert e att) (elementConnected e t)"
proof -
  let ?ks = "propertyNames s A"
  let ?sfx = "stateIdPathOf s A"
  note n = sharedInv_names [OF inv e(1) ctor]
  note nA = sharedInv_names [OF inv A ctor]
  have conn: "elementConnected e t = attachLoop e ?sfx ?ks t"
    by (simp add: elementConnected_loop n)
  have d: "distinct ?ks" "\<forall>q\<in>set ?ks. declared t e q"
    using dist by (simp_all add: n declared_def)
  have fatt: "finite att"
    using att fin by (rule finite_subset)
  have pk: "p \<in> set ?ks"
    using p by (simp add: declared_def)
  have frame: "elCtor (elementConnected e t) = elCtor s"
    "\<forall>c. elementName (ctors (elementConnected e t) c) = elementName (ctors s c) \<and>
          stateIdProperty (ctors (elementConnected e t) c) = stateIdProperty (ctors s c) \<and>
          map fst (dataProperties (ctors (elementConnected e t) c)) = map fst (dataProperties (ctors s c))"
    using inv by (auto simp: sharedInv_def elementConnected_loop)
  have sidp: "\<forall>e'\<in>E. stateIdPathOf (elementConnected e t) e' = ?sfx"
  proof
    fix e' assume e': "e' \<in> E"
    have c': "elCtor s e' = elCtor s A"
      using ctor e' by simp
    have "stateIdPathOf (elementConnected e t) e' = stateIdPathOf t e'"
    proof (rule stateIdPathOf_cong)
      show "elCtor (elementConnected e t) = elCtor t" by (rule ext) simp
      show "stateIdProperty (ctors (elementConnected e t) (elCtor t e')) = stateIdProperty (ctors t (elCtor t e'))"
        by simp
      have "stateIdProperty (ctors t (elCtor t e')) \<notin> set ?ks"
        using sid inv c' by (simp add: sharedInv_def)
      then show "elProps (elementConnected e t) e' (stateIdProperty (ctors t (elCtor t e'))) =
            elProps t e' (stateIdProperty (ctors t (elCtor t e')))"
        by (simp add: conn attachLoop_other)
    qed
    then show "stateIdPathOf (elementConnected e t) e' = ?sfx"
      using inv e' by (simp add: sharedInv_def)
  qed
  have stored: "\<forall>q\<in>set ?ks. storedPath (elementConnected e t) A q = pathOf s A ?sfx q"
  proof
    fix q assume q: "q \<in> set ?ks"
    have dq: "declared t e q"
      using d q by simp
    have "storedPath (elementConnected e t) e q = pathOf t e (stateIdPathOf t e) q"
      by (rule attach_storedPath [OF dq])
    moreover have "storedPath (elementConnected e t) e q = storedPath (elementConnected e t) A q"
      by (rule storedPath_same_ctor) (simp add: n(5) nA(5))
    ultimately show "storedPath (elementConnected e t) A q = pathOf s A ?sfx q"
      by (simp add: n)
  qed
  have refs: "stateRefs (elementConnected e t) (pathOf s A ?sfx p) =
      Some (incRef (stateRefs t (pathOf s A ?sfx p)))"
  proof -
    have "pathOf s A ?sfx p = pathOf t e ?sfx p"
      by (simp add: n(3))
    moreover have "stateRefs (attachLoop e ?sfx ?ks t) (pathOf t e ?sfx p) =
        Some (incRef (stateRefs t (pathOf t e ?sfx p)))"
      using pk by (simp add: attachLoop_stateRefs [OF d])
    ultimately show ?thesis
      by (simp only: conn)
  qed
  have old: "stateRefs t (pathOf s A ?sfx p) = None \<or>
     stateRefs t (pathOf s A ?sfx p) = Some (Count (int (card att)))"
    using inv by (auto simp: sharedInv_def)
  have cnt: "stateRefs (elementConnected e t) (pathOf s A ?sfx p) = Some (Count (int (card (insert e att))))"
  proof (cases b)
    case True
    then have "stateRefs t (pathOf s A ?sfx p) = Some (Count (int (card att)))"
      using inv by (simp add: sharedInv_def)
    then show ?thesis
      using refs e(2) fatt by simp
  next
    case False
    then have "att = {}" "stateRefs t (pathOf s A ?sfx p) = None"
      using inv by (simp_all add: sharedInv_def)
    then show ?thesis
      using refs by simp
  qed
  show ?thesis
    unfolding sharedInv_def
    using frame sidp stored cnt by simp
qed

lemma elementDisconnected_stateIdPathOf [simp]:
  "stateIdPathOf (elementDisconnected el s) e = stateIdPathOf s e"
  by (simp add: stateIdPathOf_def getProp_def)

lemma elementDisconnected_keys [simp]:
  "map fst (dataProperties (ctors (elementDisconnected el s) c)) = map fst (dataProperties (ctors s c))"
  by (simp add: elementDisconnected_loop)

lemma sharedInv_detach:
  assumes inv: "sharedInv s E A p b att t" and e: "e \<in> att" and att: "att \<subseteq> E" and fin: "finite E"
    and A: "A \<in> E"
    and ctor: "\<forall>e\<in>E. elCtor s e = elCtor s A"
    and dist: "distinct (propertyNames s A)" and p: "declared s A p"
  shows "sharedInv s E A p True (att - {e}) (elementDisconnected e t)"
proof -
  let ?ks = "propertyNames s A"
  let ?sfx = "stateIdPathOf s A"
  let ?sp = "pathOf s A ?sfx p"
  have eE: "e \<in> E"
    using e att by blast
  note n = sharedInv_names [OF inv eE ctor]
  note nA = sharedInv_names [OF inv A ctor]
  have ne: "att \<noteq> {}"
    using e by blast
  have fatt: "finite att"
    using att fin by (rule finite_subset)
  have b: "b"
    using inv ne by (auto simp: sharedInv_def)
  have cnt: "stateRefs t ?sp = Some (Count (int (card att)))"
    using inv b by (simp add: sharedInv_def)
  have storedA: "\<forall>q\<in>set ?ks. storedPath t A q = pathOf s A ?sfx q"
    using inv ne by (simp add: sharedInv_def)
  have same: "storedPath t e q = storedPath t A q" for q
    by (rule storedPath_same_ctor) (simp add: n(5) nA(5))
  have stored: "\<forall>q\<in>set ?ks. storedPath t e q = pathOf s A ?sfx q"
    using storedA by (simp add: same)
  have disc: "elementDisconnected e t = detachLoop e ?ks t"
    by (simp add: elementDisconnected_loop n)
  have d: "distinct ?ks" "\<forall>q\<in>set ?ks. declared t e q"
    using dist by (simp_all add: n declared_def)
  have inj: "inj_on (storedPath t e) (set ?ks)"
    by (rule inj_onI) (use stored in simp)
  have pk: "p \<in> set ?ks"
    using p by (simp add: declared_def)
  have spe: "storedPath t e p = ?sp"
    using stored pk by simp
  have mem: "?sp \<in> storedPath t e ` set ?ks"
    using pk spe by (metis imageI)
  have card: "int (card (att - {e})) = int (card att) - 1"
    using e fatt by (simp add: card_Diff_singleton) (metis card_gt_0_iff ne of_nat_1 of_nat_diff Suc_leI One_nat_def)
  have refs: "stateRefs (elementDisconnected e t) ?sp = Some (Count (int (card (att - {e}))))"
    using mem by (simp add: disc detachLoop_stateRefs [OF d inj] cnt card)
  have zero: "att - {e} = {} \<longrightarrow> rootState (elementDisconnected e t) ?sp = None"
  proof
    assume "att - {e} = {}"
    then have "card (att - {e}) = 0"
      by (simp only: card.empty)
    then have "int (card att) - 1 = 0"
      using card by linarith
    then show "rootState (elementDisconnected e t) ?sp = None"
      using mem by (simp add: disc detachLoop_rootState [OF d inj] cnt)
  qed
  have frame: "elCtor (elementDisconnected e t) = elCtor s"
    "\<forall>c. elementName (ctors (elementDisconnected e t) c) = elementName (ctors s c) \<and>
          stateIdProperty (ctors (elementDisconnected e t) c) = stateIdProperty (ctors s c) \<and>
          map fst (dataProperties (ctors (elementDisconnected e t) c)) = map fst (dataProperties (ctors s c))"
    "\<forall>e'\<in>E. stateIdPathOf (elementDisconnected e t) e' = ?sfx"
    using inv by (auto simp: sharedInv_def)
  have stored': "\<forall>q\<in>set ?ks. storedPath (elementDisconnected e t) A q = pathOf s A ?sfx q"
    using storedA by simp
  show ?thesis
    unfolding sharedInv_def
    using frame stored' refs zero by simp
qed

lemma sharedInv_run:
  assumes "sharedInv s E A p b att t" and "paired att ops" and "subject ` set ops \<subseteq> E"
    and "att \<subseteq> E" and "finite E" and "A \<in> E"
    and "\<forall>e\<in>E. elCtor s e = elCtor s A"
    and "distinct (propertyNames s A)" and "declared s A p"
    and "stateIdProperty (ctors s (elCtor s A)) \<notin> set (propertyNames s A)"
  shows "sharedInv s E A p (b \<or> ops \<noteq> []) (attachedAfter att ops) (run ops t)"
  using assms(1-4)
proof (induction ops arbitrary: b att t)
  case Nil
  then show ?case by simp
next
  case (Cons op ops)
  show ?case
  proof (cases op)
    case (Attach e)
    have "sharedInv s E A p True (insert e att) (elementConnected e t)"
      using Cons.prems Attach
      by (intro sharedInv_attach [OF _ _ _ _ assms(5-10)]) auto
    then have "sharedInv s E A p (True \<or> ops \<noteq> []) (attachedAfter (insert e att) ops)
        (run ops (elementConnected e t))"
      using Cons.prems Attach by (intro Cons.IH) auto
    then show ?thesis
      using Attach by simp
  next
    case (Detach e)
    have "sharedInv s E A p True (att - {e}) (elementDisconnected e t)"
      using Cons.prems Detach
      by (intro sharedInv_detach [OF _ _ _ assms(5-9)]) auto
    then have "sharedInv s E A p (True \<or> ops \<noteq> []) (attachedAfter (att - {e}) ops)
        (run ops (elementDisconnected e t))"
      using Cons.prems Detach by (intro Cons.IH) auto
    then show ?thesis
      using Detach by simp
  qed
qed

lemma paired_take: "paired att ops \<Longrightarrow> paired att (take n ops)"
proof (induction ops arbitrary: att n)
  case Nil
  then show ?case by simp
next
  case (Cons op ops)
  then show ?case
    by (cases n; cases op) auto
qed

subsection \<open>What a dispatch does to one element\<close>

lemma filter_onElement_syncActions:
  "filter (onElement e) (concat (map (syncActions src t) hs)) =
     concat (map (syncActions src t) (filter (\<lambda>h. h_el h = e) hs))"
  by (induction hs) (auto simp: syncActions_def)

lemma syncActions_on_source [simp]:
  "filter (onElement e) (concat (map (syncActions (Some e) t) hs)) = []"
  by (induction hs) (auto simp: syncActions_def)

lemma syncActions_no_global [simp]:
  "filter isRootStateSet (concat (map (syncActions src t) hs)) = []"
  "filter isWindowEvent (concat (map (syncActions src t) hs)) = []"
  by (induction hs; auto simp: syncActions_def)+

lemma globalLoop_elProps_single:
  assumes "filter (\<lambda>h. h_el h = e) hs = [h]" and "src \<noteq> Some e"
  shows "elProps (fold (handleGlobal src) hs t) e =
           (elProps t e)(h_propertyName h := RootState_get t (h_statePath h))"
  using assms
proof (induction hs arbitrary: t)
  case Nil
  then show ?case by simp
next
  case (Cons h' hs)
  show ?case
  proof (cases "h_el h' = e")
    case True
    then have h': "h' = h" and none: "filter (\<lambda>h. h_el h = e) hs = []"
      using Cons.prems(1) by simp_all
    have "e \<notin> h_el ` set hs"
      using none by (auto simp: filter_empty_conv)
    then have "elProps (fold (handleGlobal src) hs (handleGlobal src h t)) e =
          elProps (handleGlobal src h t) e"
      by (simp add: globalLoop_elProps_other)
    then show ?thesis
      using True h' Cons.prems(2) by (simp add: handleGlobal_elProps)
  next
    case False
    then have "filter (\<lambda>h. h_el h = e) hs = [h]"
      using Cons.prems(1) by simp
    then have "elProps (fold (handleGlobal src) hs (handleGlobal src h' t)) e =
          (elProps (handleGlobal src h' t) e)
            (h_propertyName h := RootState_get (handleGlobal src h' t) (h_statePath h))"
      using Cons.prems(2) by (intro Cons.IH)
    then show ?thesis
      using False by (auto simp: handleGlobal_elProps)
  qed
qed

subsection \<open>Two instances on different paths\<close>

lemma last_segment_eq:
  assumes "xs @ c # ys = xs' @ c # ys'" and "c \<notin> set ys" and "c \<notin> set ys'"
  shows "ys = ys'"
proof -
  have "takeWhile (\<lambda>x. x \<noteq> c) (rev ys @ c # rev xs) = rev ys"
    using assms(2) by (auto simp: takeWhile_tail)
  moreover have "takeWhile (\<lambda>x. x \<noteq> c) (rev ys' @ c # rev xs') = rev ys'"
    using assms(3) by (auto simp: takeWhile_tail)
  moreover have "rev ys @ c # rev xs = rev ys' @ c # rev xs'"
    using arg_cong [OF assms(1), of rev] by simp
  ultimately show ?thesis
    by (metis rev_is_rev_conv)
qed
















subsection \<open>Instances whose stateIds stay\<close>












lemma first_segment: "c \<notin> set xs \<Longrightarrow> takeWhile (\<lambda>x. x \<noteq> c) (xs @ c # ys) = xs"
  by (induction xs) auto

section \<open>Reference counts of a shared path\<close>

text \<open>
  C1. Two instances \<open>A\<close> and \<open>B\<close> of one type share the state path of a declared
  property (same class, same stateId suffix, the stateId property itself not a data
  property), and no count is recorded for the path yet. Through every sequence of paired
  attach and detach callbacks of the two, after each step the reference count of the path
  is the number of instances attached at that moment: 2 once both have attached, 0 once
  both have detached, and then the RootState entry of the path is gone.
\<close>

theorem refcount_counts_attached:
  assumes "A \<noteq> B" and "elCtor s B = elCtor s A" and "stateIdPathOf s B = stateIdPathOf s A"
    and "distinct (propertyNames s A)" and "declared s A p"
    and "stateIdProperty (ctors s (elCtor s A)) \<notin> set (propertyNames s A)"
  defines "sp \<equiv> pathOf s A (stateIdPathOf s A) p"
  assumes "stateRefs s sp = None"
    and "paired {} ops" and "subject ` set ops \<subseteq> {A, B}" and "0 < n" and "ops \<noteq> []"
  defines "t \<equiv> run (take n ops) s"
  defines "att \<equiv> attachedAfter {} (take n ops)"
  shows "stateRefs t sp = Some (Count (int (card att))) \<and>
         (att = {A, B} \<longrightarrow> stateRefs t sp = Some (Count 2)) \<and>
         (att = {} \<longrightarrow> stateRefs t sp = Some (Count 0) \<and> rootState t sp = None)"
proof -
  let ?E = "{A, B}"
  have init: "sharedInv s ?E A p False {} s"
    using assms(3,8) by (simp add: sharedInv_def sp_def)
  have pr: "paired {} (take n ops)"
    using assms(9) by (rule paired_take)
  have sub: "subject ` set (take n ops) \<subseteq> ?E"
    using assms(10) by (meson image_mono set_take_subset subset_trans)
  have ne: "take n ops \<noteq> []"
    using assms(11,12) by simp
  have ctor: "\<forall>e\<in>?E. elCtor s e = elCtor s A"
    using assms(2) by simp
  have "sharedInv s ?E A p (False \<or> take n ops \<noteq> []) (attachedAfter {} (take n ops)) (run (take n ops) s)"
    by (rule sharedInv_run [OF init pr sub _ _ _ ctor assms(4,5,6)]) simp_all
  then have inv: "sharedInv s ?E A p True att t"
    using ne by (simp add: att_def t_def)
  have cnt: "stateRefs t sp = Some (Count (int (card att)))"
    and gone: "att = {} \<longrightarrow> rootState t sp = None"
    using inv by (simp_all add: sharedInv_def sp_def)
  have two: "att = {A, B} \<longrightarrow> stateRefs t sp = Some (Count 2)"
    using cnt assms(1) by simp
  have zero: "att = {} \<longrightarrow> stateRefs t sp = Some (Count 0)"
    using cnt by simp
  show ?thesis
    using cnt two zero gone by blast
qed

text \<open>The same on the example page.\<close>

theorem refcount_counts_attached_witness:
  "(2::nat) \<noteq> 3 \<and> elCtor page 3 = elCtor page 2 \<and> stateIdPathOf page 3 = stateIdPathOf page 2 \<and>
   distinct (propertyNames page 2) \<and> declared page 2 ''count'' \<and>
   stateIdProperty (ctors page (elCtor page 2)) \<notin> set (propertyNames page 2) \<and>
   stateRefs page ''my-widget.count'' = None \<and>
   paired {} [Attach 2, Attach 3, Detach 2, Detach 3] \<and>
   stateRefs (run [Attach 2] page) ''my-widget.count'' = Some (Count 1) \<and>
   stateRefs (run [Attach 2, Attach 3] page) ''my-widget.count'' = Some (Count 2) \<and>
   stateRefs (run [Attach 2, Attach 3, Detach 2] page) ''my-widget.count'' = Some (Count 1) \<and>
   stateRefs (run [Attach 2, Attach 3, Detach 2, Detach 3] page) ''my-widget.count'' = Some (Count 0) \<and>
   rootState (run [Attach 2, Attach 3, Detach 2, Detach 3] page) ''my-widget.count'' = None"
proof -
  let ?ops = "[Attach 2, Attach 3, Detach 2, Detach 3]"
  have h1: "(2::nat) \<noteq> 3" by simp
  have h2: "elCtor page 3 = elCtor page 2" by (simp add: page_def)
  have h3: "stateIdPathOf page 3 = stateIdPathOf page 2" by (simp add: page_simps)
  have h4: "distinct (propertyNames page 2)" and h5: "declared page 2 ''count''"
    by (simp_all add: page_simps)
  have h6: "stateIdProperty (ctors page (elCtor page 2)) \<notin> set (propertyNames page 2)"
    by (simp add: page_simps) (simp add: page_def Widget_def)
  have e: "pathOf page 2 (stateIdPathOf page 2) ''count'' = ''my-widget.count''"
    by (simp add: page_simps)
  have h7: "stateRefs page (pathOf page 2 (stateIdPathOf page 2) ''count'') = None"
    by (simp add: page_def)
  have h8: "paired {} ?ops" by simp
  have h9: "subject ` set ?ops \<subseteq> {2, 3}" by simp
  have h10: "?ops \<noteq> []" by simp
  note th = refcount_counts_attached [OF h1 h2 h3 h4 h5 h6 h7 h8 h9 _ h10, unfolded e]
  have a1: "stateRefs (run [Attach 2] page) ''my-widget.count'' = Some (Count 1)"
    using th [of 1] by simp
  have a2: "stateRefs (run [Attach 2, Attach 3] page) ''my-widget.count'' = Some (Count 2)"
    using th [of 2] by (simp add: numeral_2_eq_2)
  have a3: "stateRefs (run [Attach 2, Attach 3, Detach 2] page) ''my-widget.count'' = Some (Count 1)"
    using th [of 3] by (simp add: numeral_3_eq_3)
  have a4: "stateRefs (run ?ops page) ''my-widget.count'' = Some (Count 0) \<and>
            rootState (run ?ops page) ''my-widget.count'' = None"
    using th [of 4] by auto
  show ?thesis
    using h1 h2 h3 h4 h5 h6 h7 [unfolded e] h8 a1 a2 a3 a4 by blast
qed

section \<open>One sync update per change\<close>

text \<open>
  C2 as stated fails: an instance that has re-attached (\<^verbatim>\<open>refreshState\<close> is detach then
  attach) carries two local listeners for the property, since detach removes none. One
  genuine change event on element 2 then writes RootState twice, dispatches two global
  events, and element 3 receives two sync updates.
\<close>

theorem refreshed_element_syncs_twice:
  "drop (length (trace (elementConnected 3 (refreshState 2 (elementConnected 2 page)))))
     (trace (dispatchEvent 2 ''count-changed'' None
        (elementConnected 3 (refreshState 2 (elementConnected 2 page))))) =
   [LocalEvent 2 ''count-changed'' None,
    RootStateSet ''my-widget.count'' (JNum ''5''),
    WindowEvent ''my-widget.count-changed'' (globalDetail 2),
    PropSet 3 ''count'' (JNum ''5''), LocalEvent 3 ''count-changed'' syncDetail,
    RootStateSet ''my-widget.count'' (JNum ''5''),
    WindowEvent ''my-widget.count-changed'' (globalDetail 2),
    PropSet 3 ''count'' (JNum ''5''), LocalEvent 3 ''count-changed'' syncDetail]"
  by code_simp

text \<open>
  C2, amended. Instance \<open>A\<close> carries exactly one local listener under the property's
  change event (it has attached once), and instance \<open>B\<close>, another element, has exactly
  one global handler registered under the window event name of the same state path. When
  a genuine change event fires on \<open>A\<close>, \<open>B\<close> receives exactly one sync update: its
  property is set to the value just written to RootState and exactly one sync-tagged
  change event is dispatched on it. The only write to RootState and the only global event
  of the whole dispatch are those of \<open>A\<close>'s listener, and nothing is dispatched back on
  \<open>A\<close>. The dispatch terminates: \<open>invokeLocal\<close> and \<open>invokeWindow\<close> are total, by a
  measure that uses the sync tag.
\<close>

theorem change_reaches_subscriber_once:
  assumes "\<not> isSync ev" and "B \<noteq> A"
    and "listenersFor s A ce = [LocalListener A sp p wn]"
    and "filter (\<lambda>h. h_el h = B) (handlersFor s wn) = [WindowHandler B p sp ce']"
  defines "s' \<equiv> dispatchEvent A ce ev s"
  defines "delta \<equiv> drop (length (trace s)) (trace s')"
  shows "filter (onElement B) delta = [PropSet B p (getProp s A p), LocalEvent B ce' syncDetail] \<and>
         getProp s' B p = getProp s A p \<and>
         rootState s' = (rootState s)(sp \<mapsto> getProp s A p) \<and>
         filter isRootStateSet delta = [RootStateSet sp (getProp s A p)] \<and>
         filter isWindowEvent delta = [WindowEvent wn (globalDetail A)] \<and>
         filter (onElement A) delta = [LocalEvent A ce ev]"
proof -
  let ?l = "LocalListener A sp p wn"
  let ?t = "log (LocalEvent A ce ev) s"
  let ?v = "getProp s A p"
  let ?hs = "handlersFor s wn"
  have s': "s' = pushChange ?l ?t"
    using assms(1,3) by (simp add: s'_def dispatchEvent_genuine)
  have gv: "getProp ?t A p = ?v" and hs: "handlersFor ?t wn = ?hs"
    by (simp_all add: getProp_def log_def handlersFor_def)
  have rs: "rootState s' = (rootState s)(sp \<mapsto> ?v)"
    by (simp add: s' pushChange_rootState gv) (simp add: log_def)
  have get: "RootState_get s' sp = ?v"
    by (simp add: RootState_get_def rs)
  have tr: "trace s' = trace s @ [LocalEvent A ce ev, RootStateSet sp ?v, WindowEvent wn (globalDetail A)]
      @ concat (map (syncActions (Some A) s') ?hs)"
    using pushChange_trace [of ?l ?t] by (simp add: s' gv hs) (simp add: log_def)
  then have delta: "delta = [LocalEvent A ce ev, RootStateSet sp ?v, WindowEvent wn (globalDetail A)]
      @ concat (map (syncActions (Some A) s') ?hs)"
    by (simp add: delta_def)
  have onB: "filter (onElement B) delta = [PropSet B p ?v, LocalEvent B ce' syncDetail]"
    using assms(2,4) by (simp add: delta filter_onElement_syncActions syncActions_def get)
  have onA: "filter (onElement A) delta = [LocalEvent A ce ev]"
    by (simp add: delta)
  have glob: "filter isRootStateSet delta = [RootStateSet sp ?v]"
    "filter isWindowEvent delta = [WindowEvent wn (globalDetail A)]"
    by (simp_all add: delta)
  let ?u = "log (WindowEvent wn (globalDetail A)) (RootState_set sp ?v ?t)"
  have "s' = fold (handleGlobal (Some A)) ?hs ?u"
    by (simp add: s' pushChange_eq gv hs)
  then have "elProps s' B = (elProps ?u B)(p := RootState_get ?u sp)"
    using globalLoop_elProps_single [OF assms(4), of "Some A" ?u] assms(2) by simp
  then have gB: "getProp s' B p = ?v"
    by (simp add: getProp_def RootState_get_def RootState_set_def log_def)
  show ?thesis
    using onB gB rs glob onA by blast
qed

text \<open>The same on the example page.\<close>

theorem change_reaches_subscriber_once_witness:
  "\<not> isSync None \<and> (3::nat) \<noteq> 2 \<and>
   listenersFor (elementConnected 3 (elementConnected 2 page)) 2 ''count-changed'' =
     [LocalListener 2 ''my-widget.count'' ''count'' ''my-widget.count-changed''] \<and>
   filter (\<lambda>h. h_el h = 3)
     (handlersFor (elementConnected 3 (elementConnected 2 page)) ''my-widget.count-changed'') =
     [WindowHandler 3 ''count'' ''my-widget.count'' ''count-changed''] \<and>
   filter (onElement 3)
     (drop (length (trace (elementConnected 3 (elementConnected 2 page))))
        (trace (dispatchEvent 2 ''count-changed'' None (elementConnected 3 (elementConnected 2 page))))) =
     [PropSet 3 ''count'' (JNum ''5''), LocalEvent 3 ''count-changed'' syncDetail] \<and>
   filter isRootStateSet
     (drop (length (trace (elementConnected 3 (elementConnected 2 page))))
        (trace (dispatchEvent 2 ''count-changed'' None (elementConnected 3 (elementConnected 2 page))))) =
     [RootStateSet ''my-widget.count'' (JNum ''5'')] \<and>
   filter isWindowEvent
     (drop (length (trace (elementConnected 3 (elementConnected 2 page))))
        (trace (dispatchEvent 2 ''count-changed'' None (elementConnected 3 (elementConnected 2 page))))) =
     [WindowEvent ''my-widget.count-changed'' (globalDetail 2)] \<and>
   getProp (dispatchEvent 2 ''count-changed'' None (elementConnected 3 (elementConnected 2 page)))
     3 ''count'' = JNum ''5''"
proof -
  let ?s = "elementConnected 3 (elementConnected 2 page)"
  have h1: "\<not> isSync None"
    by (simp add: isSync_def)
  have h2: "(3::nat) \<noteq> 2"
    by simp
  have h3: "listenersFor ?s 2 ''count-changed'' =
      [LocalListener 2 ''my-widget.count'' ''count'' ''my-widget.count-changed'']"
    by code_simp
  have h4: "filter (\<lambda>h. h_el h = 3) (handlersFor ?s ''my-widget.count-changed'') =
      [WindowHandler 3 ''count'' ''my-widget.count'' ''count-changed'']"
    by code_simp
  have g: "getProp ?s 2 ''count'' = JNum ''5''"
    by code_simp
  show ?thesis
    using change_reaches_subscriber_once [OF h1 h2 h3 h4] h1 h3 h4 unfolding g by simp
qed

section \<open>Seed or pull on attach\<close>

text \<open>
  C3. On attach, for each declared property: if \<^verbatim>\<open>RootState.get\<close> of the state path
  returns the null sentinel, RootState is set to the element's current value of the
  property and no change event is dispatched on the element (the actions of that pass are
  the one write); otherwise the element's property is overwritten with the stored value
  and exactly one change event, tagged as a sync update, is dispatched on the element.
  The actions of the whole attach are those of its passes, in the order of the keys.
\<close>

theorem attach_seeds_or_pulls:
  assumes "distinct (propertyNames s el)" and "declared s el p"
  defines "sfx \<equiv> stateIdPathOf s el"
  defines "sp \<equiv> pathOf s el sfx p"
  defines "s' \<equiv> elementConnected el s"
  shows "trace s' = trace s @ concat (map (attachActions s el sfx) (propertyNames s el)) \<and>
         (RootState_get s sp = JNull \<longrightarrow>
            attachActions s el sfx p = [RootStateSet sp (getProp s el p)] \<and>
            rootState s' sp = Some (getProp s el p) \<and> getProp s' el p = getProp s el p) \<and>
         (RootState_get s sp \<noteq> JNull \<longrightarrow>
            attachActions s el sfx p =
              [PropSet el p (RootState_get s sp), LocalEvent el (changeEventOf s el p) syncDetail] \<and>
            getProp s' el p = RootState_get s sp \<and> rootState s' sp = rootState s sp)"
proof -
  have p: "p \<in> set (propertyNames s el)"
    using assms(2) by (simp add: declared_def)
  have tr: "trace s' = trace s @ concat (map (attachActions s el sfx) (propertyNames s el))"
    unfolding s'_def sfx_def elementConnected_loop
    by (rule attachLoop_trace [OF assms(1) declared_all])
  have seed: "RootState_get s sp = JNull \<longrightarrow>
           attachActions s el sfx p = [RootStateSet sp (getProp s el p)] \<and>
           rootState s' sp = Some (getProp s el p) \<and> getProp s' el p = getProp s el p"
    unfolding s'_def sp_def sfx_def elementConnected_loop
    using p
    by (simp add: attachLoop_rootState [OF assms(1) declared_all]
          attachLoop_elProps [OF assms(1) declared_all] attachActions_def getProp_def)
  have pull: "RootState_get s sp \<noteq> JNull \<longrightarrow>
           attachActions s el sfx p =
             [PropSet el p (RootState_get s sp), LocalEvent el (changeEventOf s el p) syncDetail] \<and>
           getProp s' el p = RootState_get s sp \<and> rootState s' sp = rootState s sp"
    unfolding s'_def sp_def sfx_def elementConnected_loop
    using p
    by (simp add: attachLoop_rootState [OF assms(1) declared_all]
          attachLoop_elProps [OF assms(1) declared_all] attachActions_def getProp_def)
  show ?thesis
    using tr seed pull by blast
qed

text \<open>The same on the example page.\<close>

theorem attach_seeds_or_pulls_witness:
  "distinct (propertyNames page 2) \<and> declared page 2 ''count'' \<and>
   RootState_get page ''my-widget.count'' = JNull \<and>
   trace (elementConnected 2 page) = [RootStateSet ''my-widget.count'' (JNum ''5'')] \<and>
   rootState (elementConnected 2 page) ''my-widget.count'' = Some (JNum ''5'') \<and>
   getProp (elementConnected 2 page) 2 ''count'' = JNum ''5'' \<and>
   distinct (propertyNames (elementConnected 2 page) 3) \<and>
   declared (elementConnected 2 page) 3 ''count'' \<and>
   RootState_get (elementConnected 2 page) ''my-widget.count'' = JNum ''5'' \<and>
   trace (elementConnected 3 (elementConnected 2 page)) =
     [RootStateSet ''my-widget.count'' (JNum ''5''),
      PropSet 3 ''count'' (JNum ''5''), LocalEvent 3 ''count-changed'' syncDetail] \<and>
   getProp (elementConnected 3 (elementConnected 2 page)) 3 ''count'' = JNum ''5'' \<and>
   rootState (elementConnected 3 (elementConnected 2 page)) ''my-widget.count'' = Some (JNum ''5'')"
proof -
  let ?s1 = "elementConnected 2 page"
  have h1: "distinct (propertyNames page 2)" and h2: "declared page 2 ''count''"
    by (simp_all add: page_simps)
  have h3: "distinct (propertyNames ?s1 3)" and h4: "declared ?s1 3 ''count''"
    by (simp_all add: elementConnected_loop page_simps)
  have e1: "stateIdPathOf page 2 = []" "pathOf page 2 [] ''count'' = ''my-widget.count''"
    "RootState_get page ''my-widget.count'' = JNull" "getProp page 2 ''count'' = JNum ''5''"
    "trace page = []" "propertyNames page 2 = [''count'']"
    by code_simp+
  have e2: "stateIdPathOf ?s1 3 = []" "pathOf ?s1 3 [] ''count'' = ''my-widget.count''"
    "RootState_get ?s1 ''my-widget.count'' = JNum ''5''" "changeEventOf ?s1 3 ''count'' = ''count-changed''"
    "propertyNames ?s1 3 = [''count'']"
    by code_simp+
  have a: "trace ?s1 = [RootStateSet ''my-widget.count'' (JNum ''5'')] \<and>
    rootState ?s1 ''my-widget.count'' = Some (JNum ''5'') \<and> getProp ?s1 2 ''count'' = JNum ''5''"
    using attach_seeds_or_pulls [OF h1 h2] unfolding e1 by simp
  have b: "trace (elementConnected 3 ?s1) = trace ?s1 @
      [PropSet 3 ''count'' (JNum ''5''), LocalEvent 3 ''count-changed'' syncDetail] \<and>
    getProp (elementConnected 3 ?s1) 3 ''count'' = JNum ''5'' \<and>
    rootState (elementConnected 3 ?s1) ''my-widget.count'' = rootState ?s1 ''my-widget.count''"
    using attach_seeds_or_pulls [OF h3 h4] unfolding e2 by simp
  show ?thesis
    using a b h1 h2 h3 h4 e1(3) e2(3) by simp
qed

section \<open>Resolved state paths\<close>

text \<open>
  C4. On every attach, for every declared property, the state path written to the
  per-type record is the element name, a dot and the property name when the element's
  stateId is absent, with a dot and the rendering of the stateId appended when it is
  present; the window event name is the state path followed by \<^verbatim>\<open>-changed\<close>. The test at
  line 168 is \<^verbatim>\<open>stateId ? ... : ""\<close>, so present means truthy: a stateId that is set but
  falsy (0, \<^verbatim>\<open>NaN\<close>, the empty string, \<^verbatim>\<open>false\<close>, \<^verbatim>\<open>null\<close>) gets no suffix, like one that is
  \<^verbatim>\<open>undefined\<close>. The suffix is what the template literal makes of the value: \<^verbatim>\<open>1e+21\<close> for
  the number ten to the power 21.
\<close>

theorem attach_resolves_paths:
  assumes "declared s el p"
  defines "stateId \<equiv> getProp s el (stateIdProperty (ctors s (elCtor s el)))"
  defines "typeName \<equiv> elementName (ctors s (elCtor s el))"
  defines "dp \<equiv> storedDp (elementConnected el s) el p"
  shows "lookupDp (elementConnected el s) (elCtor s el) p = Some dp \<and>
         (stateId = JUndefined \<longrightarrow> statePath dp = Some (typeName @ ''.'' @ p)) \<and>
         (\<not> truthy stateId \<longrightarrow> statePath dp = Some (typeName @ ''.'' @ p)) \<and>
         (truthy stateId \<longrightarrow> statePath dp = Some (typeName @ ''.'' @ p @ ''.'' @ toString stateId)) \<and>
         windowEventName dp = Some (asString (statePath dp) @ ''-changed'')"
proof -
  have p: "p \<in> set (propertyNames s el)"
    using assms(1) by (simp add: declared_def)
  obtain d where d: "lookupDp (elementConnected el s) (elCtor s el) p = Some d"
    "statePath d = Some (pathOf s el (stateIdPathOf s el) p)"
    "windowEventName d = Some (pathOf s el (stateIdPathOf s el) p @ ''-changed'')"
    using attachLoop_lookupDp [OF p assms(1), of "stateIdPathOf s el"]
    by (auto simp: elementConnected_loop)
  have dp: "dp = d"
    using d(1) by (simp add: dp_def storedDp_def elementConnected_loop)
  have "stateId = JUndefined \<longrightarrow> statePath dp = Some (typeName @ ''.'' @ p)"
    using d(2) by (simp add: dp pathOf_def stateIdPathOf_def stateId_def typeName_def)
  moreover have "\<not> truthy stateId \<longrightarrow> statePath dp = Some (typeName @ ''.'' @ p)"
    using d(2) by (simp add: dp pathOf_def stateIdPathOf_def stateId_def typeName_def)
  moreover have "truthy stateId \<longrightarrow>
      statePath dp = Some (typeName @ ''.'' @ p @ ''.'' @ toString stateId)"
    using d(2) by (simp add: dp pathOf_def stateIdPathOf_def stateId_def typeName_def)
  moreover have "windowEventName dp = Some (asString (statePath dp) @ ''-changed'')"
    using d(2,3) by (simp add: dp asString_def)
  ultimately show ?thesis
    using d(1) dp by blast
qed

text \<open>The same on the example page.\<close>

theorem attach_resolves_paths_witness:
  "declared page 2 ''count'' \<and> getProp page 2 ''stateId'' = JUndefined \<and>
   lookupDp (elementConnected 2 page) 0 ''count'' =
     Some (storedDp (elementConnected 2 page) 2 ''count'') \<and>
   statePath (storedDp (elementConnected 2 page) 2 ''count'') = Some ''my-widget.count'' \<and>
   windowEventName (storedDp (elementConnected 2 page) 2 ''count'') = Some ''my-widget.count-changed'' \<and>
   declared page 4 ''count'' \<and> truthy (getProp page 4 ''stateId'') \<and>
   statePath (storedDp (elementConnected 4 page) 4 ''count'') = Some ''my-widget.count.a'' \<and>
   windowEventName (storedDp (elementConnected 4 page) 4 ''count'') = Some ''my-widget.count.a-changed''"
proof -
  have d2: "declared page 2 ''count''" and d4: "declared page 4 ''count''"
    by (simp_all add: page_simps)
  have u: "getProp page 2 (stateIdProperty (ctors page (elCtor page 2))) = JUndefined"
    by code_simp
  have v: "getProp page 4 (stateIdProperty (ctors page (elCtor page 4))) = JStr ''a''"
    by code_simp
  have n: "elementName (ctors page c) = ''my-widget''" "elCtor page e = 0"
    "stateIdProperty (ctors page c) = ''stateId''" for c e
    by (simp_all add: page_def Widget_def)
  show ?thesis
    using attach_resolves_paths [OF d2] attach_resolves_paths [OF d4] d2 d4 u v
    by (simp add: n asString_def)
qed

text \<open>StateIds that are set but falsy, and a number that renders with an exponent.\<close>

lemma falsy_stateId_gets_no_suffix:
  "storedPath (elementConnected 2 (setProp 2 ''stateId'' (JNum ''0'') page)) 2 ''count'' = ''my-widget.count'' \<and>
   storedPath (elementConnected 2 (setProp 2 ''stateId'' (JStr []) page)) 2 ''count'' = ''my-widget.count'' \<and>
   storedPath (elementConnected 2 (setProp 2 ''stateId'' (JBool False) page)) 2 ''count'' = ''my-widget.count'' \<and>
   storedPath (elementConnected 2 (setProp 2 ''stateId'' JNull page)) 2 ''count'' = ''my-widget.count'' \<and>
   storedPath (elementConnected 2 (setProp 2 ''stateId'' (JNum ''1e+21'') page)) 2 ''count'' =
     ''my-widget.count.1e+21''"
  by code_simp

section \<open>Detach with two live instances\<close>

text \<open>
  C5. Two instances of one type with different stateIds: element 4 (stateId \<^verbatim>\<open>a\<close>)
  attaches, element 5 (stateId \<^verbatim>\<open>b\<close>) attaches, element 4 detaches. The detach reads the
  shared per-type record, which holds what the attach of element 5 resolved: it
  decrements the count of element 5's path to 0 and deletes that entry of RootState while
  element 5 is attached, and removes element 5's global handler; the count of element 4's
  own path stays 1 and element 4's own handler stays registered.
\<close>

theorem detach_uses_last_attached_record:
  "stateRefs (run [Attach 4, Attach 5, Detach 4] page) ''my-widget.count.a'' = Some (Count 1) \<and>
   stateRefs (run [Attach 4, Attach 5, Detach 4] page) ''my-widget.count.b'' = Some (Count 0) \<and>
   rootState (run [Attach 4, Attach 5] page) ''my-widget.count.b'' = Some (JNum ''7'') \<and>
   rootState (run [Attach 4, Attach 5, Detach 4] page) ''my-widget.count.b'' = None \<and>
   windowListeners (run [Attach 4, Attach 5] page) =
     [(''my-widget.count.a-changed'', 0, WindowHandler 4 ''count'' ''my-widget.count.a'' ''count-changed''),
      (''my-widget.count.b-changed'', 1, WindowHandler 5 ''count'' ''my-widget.count.b'' ''count-changed'')] \<and>
   windowListeners (run [Attach 4, Attach 5, Detach 4] page) =
     [(''my-widget.count.a-changed'', 0, WindowHandler 4 ''count'' ''my-widget.count.a'' ''count-changed'')]"
  by code_simp

lemma detach_leaks_first_handler:
  "windowListeners (run [Attach 2, Attach 3, Detach 2, Detach 3] page) =
     [(''my-widget.count-changed'', 0, WindowHandler 2 ''count'' ''my-widget.count'' ''count-changed'')]"
  by code_simp

section \<open>What detach clears\<close>

text \<open>
  C6 as stated fails: detach deletes \<^verbatim>\<open>windowEventName\<close> and \<^verbatim>\<open>windowEventHandler\<close>
  (lines 251 and 252) and leaves \<^verbatim>\<open>statePath\<close> in the per-type record.
\<close>

theorem detach_keeps_statePath:
  "lookupDp (elementDisconnected 2 (elementConnected 2 page)) 0 ''count'' =
     Some \<lparr>changeEvent = Some ''count-changed'', statePath = Some ''my-widget.count'',
           windowEventName = None, windowEventHandler = None\<rparr>"
  by code_simp

text \<open>
  C6, amended. On every detach, \<^verbatim>\<open>windowEventName\<close> and \<^verbatim>\<open>windowEventHandler\<close> are
  cleared from the shared per-type record for every declared property; \<^verbatim>\<open>statePath\<close>
  and \<^verbatim>\<open>changeEvent\<close> stay as they were.
\<close>

theorem detach_clears_window_fields:
  assumes "declared s el p"
  defines "dp \<equiv> storedDp s el p"
  defines "dp' \<equiv> storedDp (elementDisconnected el s) el p"
  shows "lookupDp (elementDisconnected el s) (elCtor s el) p = Some dp' \<and>
         windowEventName dp' = None \<and> windowEventHandler dp' = None \<and>
         statePath dp' = statePath dp \<and> changeEvent dp' = changeEvent dp"
proof -
  from assms(1) obtain d where d: "lookupDp s (elCtor s el) p = Some d"
    using declared_lookup by blast
  have p: "p \<in> set (propertyNames s el)"
    using assms(1) by (simp add: declared_def)
  have l: "lookupDp (elementDisconnected el s) (elCtor s el) p = Some (clearResolved d)"
    using d p by (simp add: elementDisconnected_loop detachLoop_lookupDp)
  then have "dp' = clearResolved d"
    by (simp add: dp'_def storedDp_def elementDisconnected_loop)
  moreover have "dp = d"
    using d by (simp add: dp_def storedDp_def)
  ultimately show ?thesis
    using l by simp
qed

text \<open>The same on the example page.\<close>

theorem detach_clears_window_fields_witness:
  "declared (elementConnected 2 page) 2 ''count'' \<and>
   storedDp (elementConnected 2 page) 2 ''count'' =
     \<lparr>changeEvent = Some ''count-changed'', statePath = Some ''my-widget.count'',
      windowEventName = Some ''my-widget.count-changed'', windowEventHandler = Some 0\<rparr> \<and>
   windowEventName (storedDp (elementDisconnected 2 (elementConnected 2 page)) 2 ''count'') = None \<and>
   windowEventHandler (storedDp (elementDisconnected 2 (elementConnected 2 page)) 2 ''count'') = None \<and>
   statePath (storedDp (elementDisconnected 2 (elementConnected 2 page)) 2 ''count'')
     = Some ''my-widget.count'' \<and>
   changeEvent (storedDp (elementDisconnected 2 (elementConnected 2 page)) 2 ''count'')
     = Some ''count-changed''"
proof -
  let ?s = "elementConnected 2 page"
  have h: "declared ?s 2 ''count''"
    by (simp add: elementConnected_loop page_simps)
  have e: "storedDp ?s 2 ''count'' =
     \<lparr>changeEvent = Some ''count-changed'', statePath = Some ''my-widget.count'',
      windowEventName = Some ''my-widget.count-changed'', windowEventHandler = Some 0\<rparr>"
    by code_simp
  show ?thesis
    using detach_clears_window_fields [OF h] h unfolding e by simp
qed

section \<open>Instances with different stateIds\<close>


text \<open>
  Distinct stateIds also give one state path in two more ways. Two values with the same
  rendering, such as the number 1 and the string \<^verbatim>\<open>1\<close>, give the same suffix. And the
  path is a plain concatenation, so a property name \<open>p\<close> with stateId \<open>a\<close> and another
  property name \<open>q\<close> with stateId \<open>b\<close> resolve to one path whenever \<open>p.a\<close> and \<open>q.b\<close> are
  the same string: on the second example page a genuine change of \<^verbatim>\<open>user\<close> on element 2
  (stateId \<^verbatim>\<open>name.x\<close>) is a sync update of \<^verbatim>\<open>user.name\<close> on element 3 (stateId \<^verbatim>\<open>x\<close>).
  Such a crossing needs the separator both in a property name and in a stateId.
\<close>

lemma same_rendering_same_suffix:
  "JNum ''1'' \<noteq> JStr ''1'' \<and> toString (JNum ''1'') = toString (JStr ''1'')"
  by code_simp

lemma crossing_names_share_a_path:
  "p @ sfxA = q @ sfxB \<Longrightarrow> pathOf s el sfxA p = pathOf s el sfxB q"
  by (simp add: pathOf_def)

lemma separator_crossing_syncs:
  "stateIdPathOf formPage 2 = ''.name.x'' \<and> stateIdPathOf formPage 3 = ''.x'' \<and>
   filter (onElement 3)
     (drop (length (trace (elementConnected 3 (elementConnected 2 formPage))))
        (trace (dispatchEvent 2 ''user-changed'' None (elementConnected 3 (elementConnected 2 formPage))))) =
     [PropSet 3 ''user.name'' (JStr ''ann''), LocalEvent 3 ''user.name-changed'' syncDetail]"
  by code_simp

lemma crossing_needs_separator:
  assumes "p @ ''.'' @ ta = q @ ''.'' @ tb" and "p \<noteq> q"
  shows "(CHR ''.'' \<in> set p \<or> CHR ''.'' \<in> set q) \<and> (CHR ''.'' \<in> set ta \<or> CHR ''.'' \<in> set tb)"
proof -
  have eq: "p @ CHR ''.'' # ta = q @ CHR ''.'' # tb"
    using assms(1) by simp
  have "CHR ''.'' \<in> set p \<or> CHR ''.'' \<in> set q"
  proof (rule ccontr)
    assume "\<not> (CHR ''.'' \<in> set p \<or> CHR ''.'' \<in> set q)"
    then have "CHR ''.'' \<notin> set p" and "CHR ''.'' \<notin> set q"
      by simp_all
    then have "takeWhile (\<lambda>x. x \<noteq> CHR ''.'') (p @ CHR ''.'' # ta) = p"
      and "takeWhile (\<lambda>x. x \<noteq> CHR ''.'') (q @ CHR ''.'' # tb) = q"
      by (simp_all add: first_segment)
    then have "p = q"
      by (simp add: eq)
    with assms(2) show False
      by simp
  qed
  moreover have "CHR ''.'' \<in> set ta \<or> CHR ''.'' \<in> set tb"
  proof (rule ccontr)
    assume "\<not> (CHR ''.'' \<in> set ta \<or> CHR ''.'' \<in> set tb)"
    then have "ta = tb"
      using last_segment_eq [OF eq] by blast
    then show False
      using eq assms(2) by simp
  qed
  ultimately show ?thesis by blast
qed

text \<open>
  A stateId that is itself a data property is pulled from RootState like any other: on
  the third page no stateId is ever assigned, yet after the history element 2 has the
  stateId \<^verbatim>\<open>a\<close>, element 3 the stateId \<^verbatim>\<open>c\<close>, and the listener of element 2's first attach,
  under the stateId \<^verbatim>\<open>c\<close>, makes a change of element 2 a sync update of element 3.
\<close>

lemma stateId_as_data_property_crosses:
  "stateIdPathOf tabPage 2 = ''.c'' \<and> stateIdPathOf tabPage 3 = ''.b'' \<and>
   stateIdPathOf (exec tabHistory tabPage) 2 = ''.a'' \<and>
   stateIdPathOf (exec tabHistory tabPage) 3 = ''.c'' \<and>
   filter (onElement 3)
     (drop (length (trace (exec tabHistory tabPage)))
        (trace (dispatchEvent 2 ''count-changed'' None (exec tabHistory tabPage)))) =
     [PropSet 3 ''count'' (JNum ''5''), LocalEvent 3 ''count-changed'' syncDetail]"
  by code_simp



section \<open>The local listener\<close>

text \<open>
  C8. The local listener that attach registers for a declared property, called with a
  change event that is not tagged as a sync update, writes the element's current value
  of the property to RootState under the captured state path and dispatches exactly one
  global event, named by the captured window event name, whose detail carries the element
  as \<^verbatim>\<open>sourceElement\<close>: what follows in the trace is no further RootState write and no
  further global event. Called with a sync-tagged event it does nothing.
\<close>

theorem local_listener_pushes:
  fixes t :: state
  assumes "distinct (propertyNames s el)" and "declared s el p" and "\<not> isSync ev"
  defines "sp \<equiv> pathOf s el (stateIdPathOf s el) p"
  defines "l \<equiv> LocalListener el sp p (sp @ ''-changed'')"
  defines "t' \<equiv> invokeLocal [l] ev t"
  shows "(changeEventOf s el p, l) \<in> set (elListeners (elementConnected el s) el) \<and>
         rootState t' = (rootState t)(sp \<mapsto> getProp t el p) \<and>
         (\<exists>rest. trace t' = trace t @ [RootStateSet sp (getProp t el p),
              WindowEvent (sp @ ''-changed'') (Some \<lparr>isSyncUpdate = False, sourceElement = Some el\<rparr>)] @ rest
           \<and> (\<forall>a\<in>set rest. \<not> isWindowEvent a \<and> \<not> isRootStateSet a)) \<and>
         invokeLocal [l] syncDetail t = t"
proof -
  have p: "p \<in> set (propertyNames s el)"
    using assms(2) by (simp add: declared_def)
  have reg: "(changeEventOf s el p, l) \<in> set (elListeners (elementConnected el s) el)"
    using p
    by (simp add: elementConnected_loop attachLoop_elListeners [OF assms(1) declared_all]
          attachListener_def l_def sp_def image_iff)
  have t': "t' = pushChange l t"
    using assms(3) by (simp add: t'_def invokeLocal_fold del: invokeLocal.simps)
  have rs: "rootState t' = (rootState t)(sp \<mapsto> getProp t el p)"
    by (simp add: t' pushChange_rootState l_def)
  have tr: "\<exists>rest. trace t' = trace t @ [RootStateSet sp (getProp t el p),
              WindowEvent (sp @ ''-changed'') (Some \<lparr>isSyncUpdate = False, sourceElement = Some el\<rparr>)] @ rest
           \<and> (\<forall>a\<in>set rest. \<not> isWindowEvent a \<and> \<not> isRootStateSet a)"
    unfolding t'
    by (subst pushChange_trace) (auto simp: l_def globalDetail_def dest: syncActions_not_global)
  have sy: "invokeLocal [l] syncDetail t = t"
    by (simp add: invokeLocal_sync isSync_syncDetail)
  show ?thesis
    using reg rs tr sy by blast
qed

text \<open>The same on the example page.\<close>

theorem local_listener_pushes_witness:
  "distinct (propertyNames page 2) \<and> declared page 2 ''count'' \<and> \<not> isSync None \<and>
   (''count-changed'', LocalListener 2 ''my-widget.count'' ''count'' ''my-widget.count-changed'')
      \<in> set (elListeners (elementConnected 2 page) 2) \<and>
   rootState (invokeLocal [LocalListener 2 ''my-widget.count'' ''count'' ''my-widget.count-changed'']
       None (elementConnected 3 (elementConnected 2 page))) ''my-widget.count'' = Some (JNum ''5'') \<and>
   trace (invokeLocal [LocalListener 2 ''my-widget.count'' ''count'' ''my-widget.count-changed'']
       None (elementConnected 3 (elementConnected 2 page))) =
     trace (elementConnected 3 (elementConnected 2 page)) @
     [RootStateSet ''my-widget.count'' (JNum ''5''),
      WindowEvent ''my-widget.count-changed'' (Some \<lparr>isSyncUpdate = False, sourceElement = Some 2\<rparr>),
      PropSet 3 ''count'' (JNum ''5''), LocalEvent 3 ''count-changed'' syncDetail]"
proof -
  let ?t = "elementConnected 3 (elementConnected 2 page)"
  let ?l = "LocalListener 2 ''my-widget.count'' ''count'' ''my-widget.count-changed''"
  have h1: "distinct (propertyNames page 2)" and h2: "declared page 2 ''count''"
    by (simp_all add: page_simps)
  have h3: "\<not> isSync None"
    by (simp add: isSync_def)
  have e1: "stateIdPathOf page 2 = []" "pathOf page 2 [] ''count'' = ''my-widget.count''"
    "changeEventOf page 2 ''count'' = ''count-changed''"
    by code_simp+
  have tr: "trace (invokeLocal [?l] None ?t) = trace ?t @
     [RootStateSet ''my-widget.count'' (JNum ''5''),
      WindowEvent ''my-widget.count-changed'' (Some \<lparr>isSyncUpdate = False, sourceElement = Some 2\<rparr>),
      PropSet 3 ''count'' (JNum ''5''), LocalEvent 3 ''count-changed'' syncDetail]"
    by code_simp
  have gp: "getProp ?t 2 ''count'' = JNum ''5''"
    by code_simp
  have a: "(''count-changed'', ?l) \<in> set (elListeners (elementConnected 2 page) 2) \<and>
     rootState (invokeLocal [?l] None ?t) = (rootState ?t)(''my-widget.count'' \<mapsto> JNum ''5'')"
    using local_listener_pushes [OF h1 h2 h3, of ?t] unfolding e1 gp by simp
  show ?thesis
    using a h1 h2 h3 tr by simp
qed

section \<open>The local listener after detach\<close>



section \<open>A stored null\<close>

text \<open>
  C10. A stored value of \<^verbatim>\<open>null\<close> is indistinguishable from an absent entry at attach
  time: when the entry of a declared property's state path holds \<^verbatim>\<open>null\<close>, attach takes
  the seed branch for it. In the trace of the attach the pass of the property is the one
  write of the element's own value to RootState, with no sync-tagged event; nowhere in
  the attach is the element's property written, so it keeps its value; and the state after
  the attach is the state the attach reaches when the entry is absent.
\<close>

theorem attach_null_entry_is_absent:
  assumes "distinct (propertyNames s el)" and "declared s el p"
  defines "sfx \<equiv> stateIdPathOf s el"
  defines "sp \<equiv> pathOf s el sfx p"
  defines "s' \<equiv> elementConnected el s"
  assumes "rootState s sp = Some JNull"
  shows "(\<exists>before after. propertyNames s el = before @ p # after \<and>
            trace s' = trace s @ concat (map (attachActions s el sfx) before)
              @ [RootStateSet sp (getProp s el p)] @ concat (map (attachActions s el sfx) after)) \<and>
         (\<forall>a\<in>set (drop (length (trace s)) (trace s')). \<forall>v. a \<noteq> PropSet el p v) \<and>
         rootState s' sp = Some (getProp s el p) \<and>
         getProp s' el p = getProp s el p \<and>
         s' = elementConnected el (s\<lparr>rootState := (rootState s)(sp := None)\<rparr>)"
proof -
  let ?ks = "propertyNames s el"
  let ?acts = "attachActions s el sfx"
  have p: "p \<in> set ?ks"
    using assms(2) by (simp add: declared_def)
  have null: "RootState_get s sp = JNull"
    using assms(6) by (simp add: RootState_get_def)
  have pass: "?acts p = [RootStateSet sp (getProp s el p)]"
    using null by (simp add: attachActions_def sp_def)
  have tr: "trace s' = trace s @ concat (map ?acts ?ks)"
    unfolding s'_def sfx_def elementConnected_loop
    by (rule attachLoop_trace [OF assms(1) declared_all])
  from p obtain before after where ks: "?ks = before @ p # after"
    by (meson split_list)
  have "trace s' = trace s @ concat (map ?acts before) @ [RootStateSet sp (getProp s el p)]
      @ concat (map ?acts after)"
    using tr pass by (simp add: ks)
  then have split: "\<exists>before after. ?ks = before @ p # after \<and>
      trace s' = trace s @ concat (map ?acts before) @ [RootStateSet sp (getProp s el p)]
        @ concat (map ?acts after)"
    using ks by blast
  have nowrite: "\<forall>a\<in>set (drop (length (trace s)) (trace s')). \<forall>v. a \<noteq> PropSet el p v"
  proof (intro ballI allI notI)
    fix a v
    assume "a \<in> set (drop (length (trace s)) (trace s'))" and a: "a = PropSet el p v"
    then obtain q where q: "q \<in> set ?ks" "PropSet el p v \<in> set (?acts q)"
      by (auto simp: tr)
    then have "q = p"
      by (auto simp: attachActions_def Let_def split: if_splits)
    with q(2) show False
      by (simp add: pass)
  qed
  have "rootState s' sp = Some (getProp s el p)"
    unfolding s'_def sp_def sfx_def elementConnected_loop
    using p null
    by (simp add: attachLoop_rootState [OF assms(1) declared_all] sp_def sfx_def)
  moreover have "getProp s' el p = getProp s el p"
    unfolding s'_def sp_def sfx_def elementConnected_loop
    using p null
    by (simp add: attachLoop_elProps [OF assms(1) declared_all] getProp_def sp_def sfx_def)
  moreover have "s' = elementConnected el (s\<lparr>rootState := (rootState s)(sp := None)\<rparr>)"
    unfolding s'_def elementConnected_loop
    using attachLoop_forget_null [OF p declared_all assms(6) [unfolded sp_def]]
    by (simp add: sp_def sfx_def)
  ultimately show ?thesis
    using split nowrite by blast
qed

text \<open>The same on the example page.\<close>

theorem attach_null_entry_is_absent_witness:
  "distinct (propertyNames (RootState_set ''my-widget.count'' JNull page) 2) \<and>
   declared (RootState_set ''my-widget.count'' JNull page) 2 ''count'' \<and>
   rootState (RootState_set ''my-widget.count'' JNull page) ''my-widget.count'' = Some JNull \<and>
   rootState (elementConnected 2 (RootState_set ''my-widget.count'' JNull page)) ''my-widget.count''
     = Some (JNum ''5'') \<and>
   getProp (elementConnected 2 (RootState_set ''my-widget.count'' JNull page)) 2 ''count'' = JNum ''5'' \<and>
   trace (elementConnected 2 (RootState_set ''my-widget.count'' JNull page)) =
     trace (RootState_set ''my-widget.count'' JNull page) @ [RootStateSet ''my-widget.count'' (JNum ''5'')] \<and>
   trace (RootState_set ''my-widget.count'' JNull page) = [RootStateSet ''my-widget.count'' JNull]"
proof -
  let ?s = "RootState_set ''my-widget.count'' JNull page"
  have e: "stateIdPathOf ?s 2 = []" "pathOf ?s 2 [] ''count'' = ''my-widget.count''"
    "getProp ?s 2 ''count'' = JNum ''5''"
    by code_simp+
  have ks: "propertyNames ?s 2 = [''count'']"
    by code_simp
  have h1: "distinct (propertyNames ?s 2)" and h2: "declared ?s 2 ''count''"
    by code_simp+
  have h3: "rootState ?s (pathOf ?s 2 (stateIdPathOf ?s 2) ''count'') = Some JNull"
    by code_simp
  have t0: "trace ?s = [RootStateSet ''my-widget.count'' JNull]"
    by code_simp
  note th = attach_null_entry_is_absent [OF h1 h2 h3, unfolded e]
  from th obtain before after where ba: "propertyNames ?s 2 = before @ ''count'' # after"
    "trace (elementConnected 2 ?s) = trace ?s @ concat (map (attachActions ?s 2 []) before)
       @ [RootStateSet ''my-widget.count'' (JNum ''5'')] @ concat (map (attachActions ?s 2 []) after)"
    by blast
  from ba(1) have "before = [] \<and> after = []"
    unfolding ks by (cases before) auto
  with ba(2) have tr: "trace (elementConnected 2 ?s) =
      trace ?s @ [RootStateSet ''my-widget.count'' (JNum ''5'')]"
    by simp
  have a: "rootState (elementConnected 2 ?s) ''my-widget.count'' = Some (JNum ''5'') \<and>
     getProp (elementConnected 2 ?s) 2 ''count'' = JNum ''5''"
    using th by blast
  show ?thesis
    using a h1 h2 h3 [unfolded e] tr t0 by blast
qed

end
